theory Spec2Isabelle
  imports Complex_Main "HOL-Library.Word"
begin

unbundle bit_operations_syntax

section \<open>Environment: clock, USB bus and observer\<close>

type_synonym byte = "8 word"
type_synonym uint16 = "16 word"

text \<open>
  Go's \<open>time.Time\<close> is modelled as a number of nanoseconds (the zero \<open>time.Time\<close> is
  \<open>0\<close>), \<open>time.Duration\<close> as the \<open>int64\<close> nanosecond count it is.
\<close>

type_synonym Time = int
type_synonym Duration = int

definition Millisecond :: Duration where
  "Millisecond = 1000000"

definition Second :: Duration where
  "Second = 1000 * Millisecond"

definition Minute :: Duration where
  "Minute = 60 * Second"

definition maxDuration :: Duration where
  "maxDuration = 2 ^ 63 - 1"

definition minDuration :: Duration where
  "minDuration = - (2 ^ 63)"

text \<open>\<open>int64\<close> multiplication wraps around (two's complement).\<close>

definition wrap64 :: "int \<Rightarrow> int" where
  "wrap64 x = (x + 2 ^ 63) mod 2 ^ 64 - 2 ^ 63"

text \<open>State of the device manager (package device); the observer callback receives it.\<close>

datatype State = Disconnected | Connected | PTTActive

text \<open>
  What the program does to the outside, oldest first: vendor control transfers on an
  opened device (handle, bmRequestType, bRequest, wValue, wIndex, payload), and the
  release of handles.
\<close>

datatype usb_event =
    Control nat byte byte uint16 uint16 "byte list"
  | SetAutoDetach nat
  | DevClose nat
  | CtxClose

text \<open>
  The world outside the program. \<open>faults\<close> holds the outcome of the control transfers
  still to come (\<open>True\<close>: the transfer returns an error); once the list is used up,
  transfers succeed. \<open>notified\<close> is what the \<open>onChange\<close> callback was called with.
\<close>

record world =
  clock :: Time
  faults :: "bool list"
  events :: "usb_event list"
  notified :: "State list"

definition time_Now :: "world \<Rightarrow> Time" where
  "time_Now w = clock w"

definition time_Sleep :: "Duration \<Rightarrow> world \<Rightarrow> world" where
  "time_Sleep d w = w\<lparr>clock := clock w + d\<rparr>"

text \<open>\<open>Time.Sub\<close> saturates at the bounds of \<open>Duration\<close>.\<close>

definition time_Sub :: "Time \<Rightarrow> Time \<Rightarrow> Duration" where
  "time_Sub t u =
     (let d = t - u
      in if d > maxDuration then maxDuration
         else if d < minDuration then minDuration
         else d)"

definition time_Since :: "Time \<Rightarrow> world \<Rightarrow> Duration" where
  "time_Since t w = time_Sub (time_Now w) t"

section \<open>Package aoa\<close>

definition R1VendorID :: uint16 where
  "R1VendorID = 0x0e8d"

definition R1ProductID :: uint16 where
  "R1ProductID = 0x2304"

definition reqRegisterHID :: byte where
  "reqRegisterHID = 54"

definition reqUnregisterHID :: byte where
  "reqUnregisterHID = 55"

definition reqSetHIDDesc :: byte where
  "reqSetHIDDesc = 56"

definition reqSendHIDEvent :: byte where
  "reqSendHIDEvent = 57"

definition bmRequestTypeOut :: byte where
  "bmRequestTypeOut = 0x40"

text \<open>\<open>type DescriptorType int\<close>, with the constants numbered by \<open>iota\<close>.\<close>

type_synonym DescriptorType = int

definition DescKeyboard :: DescriptorType where
  "DescKeyboard = 0"

definition DescConsumerControl :: DescriptorType where
  "DescConsumerControl = 1"

definition DescSystemControl :: DescriptorType where
  "DescSystemControl = 2"

definition DescCameraControl :: DescriptorType where
  "DescCameraControl = 3"

definition DescTouchScreen :: DescriptorType where
  "DescTouchScreen = 4"

definition keyboardDescriptor :: "byte list" where
  "keyboardDescriptor =
    [0x05, 0x01, 0x09, 0x06, 0xA1, 0x01, 0x05, 0x07, 0x19, 0xE0, 0x29, 0xE7,
     0x15, 0x00, 0x25, 0x01, 0x75, 0x01, 0x95, 0x08, 0x81, 0x02, 0x95, 0x01,
     0x75, 0x08, 0x81, 0x01, 0x95, 0x06, 0x75, 0x08, 0x15, 0x00, 0x26, 0xFF,
     0x00, 0x05, 0x07, 0x19, 0x00, 0x29, 0xFF, 0x81, 0x00, 0xC0]"

definition consumerDescriptor :: "byte list" where
  "consumerDescriptor =
    [0x05, 0x0C, 0x09, 0x01, 0xA1, 0x01, 0x15, 0x00, 0x26, 0xFF, 0x0F, 0x19,
     0x00, 0x2A, 0xFF, 0x0F, 0x75, 0x10, 0x95, 0x01, 0x81, 0x00, 0xC0]"

definition systemControlDescriptor :: "byte list" where
  "systemControlDescriptor =
    [0x05, 0x01, 0x09, 0x80, 0xA1, 0x01, 0x15, 0x01, 0x25, 0x03, 0x09, 0x81,
     0x09, 0x82, 0x09, 0x83, 0x75, 0x08, 0x95, 0x01, 0x81, 0x00, 0xC0]"

definition cameraControlDescriptor :: "byte list" where
  "cameraControlDescriptor =
    [0x05, 0x90, 0x09, 0x20, 0xA1, 0x01, 0x15, 0x00, 0x25, 0x01, 0x75, 0x01,
     0x95, 0x01, 0x09, 0x20, 0x81, 0x02, 0x09, 0x21, 0x81, 0x02, 0x95, 0x06,
     0x81, 0x03, 0xC0]"

definition touchScreenDescriptor :: "byte list" where
  "touchScreenDescriptor =
    [0x05, 0x0D, 0x09, 0x04, 0xA1, 0x01, 0x09, 0x22, 0xA1, 0x02, 0x09, 0x42,
     0x15, 0x00, 0x25, 0x01, 0x75, 0x01, 0x95, 0x01, 0x81, 0x02, 0x09, 0x32,
     0x81, 0x02, 0x75, 0x06, 0x95, 0x01, 0x81, 0x03, 0x05, 0x01, 0x09, 0x30,
     0x15, 0x00, 0x26, 0xFF, 0x7F, 0x75, 0x10, 0x95, 0x01, 0x81, 0x02, 0x09,
     0x31, 0x81, 0x02, 0xC0, 0xC0]"

text \<open>\<open>TouchReport\<close>: \<open>byte(v)\<close> keeps the low eight bits, \<open>x >> 8\<close> is a logical shift.\<close>

definition TouchReport :: "bool \<Rightarrow> uint16 \<Rightarrow> uint16 \<Rightarrow> byte list" where
  "TouchReport tip x y =
     (let flags = (if tip then 0x03 else 0x00)
      in [flags,
          ucast (x AND 0xFF), ucast (drop_bit 8 x),
          ucast (y AND 0xFF), ucast (drop_bit 8 y)])"

text \<open>\<open>GetDescriptor\<close>: \<open>None\<close> is the \<open>nil\<close> of the default branch.\<close>

definition GetDescriptor :: "DescriptorType \<Rightarrow> byte list option" where
  "GetDescriptor dt =
     (if dt = DescKeyboard then Some keyboardDescriptor
      else if dt = DescConsumerControl then Some consumerDescriptor
      else if dt = DescSystemControl then Some systemControlDescriptor
      else if dt = DescCameraControl then Some cameraControlDescriptor
      else if dt = DescTouchScreen then Some touchScreenDescriptor
      else None)"

text \<open>
  The errors of both packages, as values. The constructors with an \<open>error\<close> argument
  are the wrappers made with \<open>fmt.Errorf("...: %w", err)\<close>.
\<close>

datatype error =
    ErrNoR1Found
  | ErrSerialNotFound string
  | ErrUnknownDescriptor DescriptorType
  | ErrControlTransfer byte uint16 uint16
  | ErrRegisterHID error
  | ErrSetHIDReportDesc error
  | ErrPing
  | ErrNoDevice
  | ErrSwipeStep nat error
  | ErrSwipeLift error

text \<open>
  A device on the bus as gousb shows it: its descriptor's vendor and product, the
  handle it is opened under, and what reading its serial number gives (\<open>None\<close>: the
  read fails, and \<open>SerialNumber\<close> returns the empty string with the error).
\<close>

record DeviceDesc =
  Vendor :: uint16
  Product :: uint16

record usbdev =
  Desc :: DeviceDesc
  handle :: nat
  SerialNumber :: "string option"

text \<open>
  \<open>type Device struct\<close>. The field \<open>dev\<close> is \<open>usbDevice\<close> here; \<open>ctx\<close> is the one
  libusb context, and \<open>serial\<close> is never written nor read.
\<close>

record Device =
  usbDevice :: usbdev
  nextHIDID :: uint16
  registered :: "uint16 list"
  lastHIDID :: uint16

definition nextFails :: "world \<Rightarrow> bool" where
  "nextFails w = (case faults w of [] \<Rightarrow> False | f # _ \<Rightarrow> f)"

definition controlTransfer ::
  "Device \<Rightarrow> byte \<Rightarrow> uint16 \<Rightarrow> uint16 \<Rightarrow> byte list option \<Rightarrow> world \<Rightarrow> error option \<times> world" where
  "controlTransfer d bRequest wValue wIndex data w =
     (let data' = (case data of None \<Rightarrow> [] | Some bs \<Rightarrow> bs);
          w' = w\<lparr>faults := tl (faults w),
                 events := events w @
                   [Control (handle (usbDevice d)) bmRequestTypeOut bRequest wValue wIndex data']\<rparr>
      in if nextFails w then (Some (ErrControlTransfer bRequest wValue wIndex), w')
         else (None, w'))"

text \<open>
  \<open>ctx.OpenDevices(opener)\<close> opens the attached devices the opener accepts, in
  enumeration order; it may report an error as well.
\<close>

definition OpenDevices :: "(DeviceDesc \<Rightarrow> bool) \<Rightarrow> usbdev list \<Rightarrow> bool \<Rightarrow> usbdev list \<times> bool" where
  "OpenDevices opener attached enumErr = (filter (\<lambda>d. opener (Desc d)) attached, enumErr)"

text \<open>The loop of \<open>Open\<close> over the opened devices; \<open>cur\<close> is the variable \<open>dev\<close>.\<close>

fun selectDevice :: "string \<Rightarrow> usbdev list \<Rightarrow> usbdev option \<Rightarrow> world \<Rightarrow> usbdev option \<times> world" where
  "selectDevice serial [] cur w = (cur, w)"
| "selectDevice serial (d # ds) cur w =
     (let s = (case SerialNumber d of None \<Rightarrow> [] | Some sn \<Rightarrow> sn)
      in if serial = [] \<or> s = serial
         then selectDevice serial ds (Some d) w
         else selectDevice serial ds cur (w\<lparr>events := events w @ [DevClose (handle d)]\<rparr>))"

text \<open>The opener that \<open>Open\<close> passes to \<open>OpenDevices\<close>.\<close>

definition isR1 :: "DeviceDesc \<Rightarrow> bool" where
  "isR1 desc = (Vendor desc = R1VendorID \<and> Product desc = R1ProductID)"

definition Open :: "string \<Rightarrow> usbdev list \<Rightarrow> bool \<Rightarrow> world \<Rightarrow> (error + Device) \<times> world" where
  "Open serial attached enumErr w =
     (let (devs, err) = OpenDevices isR1 attached enumErr
      in if err \<and> length devs = 0
         then (Inl ErrNoR1Found, w\<lparr>events := events w @ [CtxClose]\<rparr>)
         else (case selectDevice serial devs None w of
                 (None, w1) \<Rightarrow>
                   (Inl (ErrSerialNotFound serial), w1\<lparr>events := events w1 @ [CtxClose]\<rparr>)
               | (Some dv, w1) \<Rightarrow>
                   (Inr \<lparr>usbDevice = dv, nextHIDID = 1, registered = [], lastHIDID = 0\<rparr>,
                    w1\<lparr>events := events w1 @ [SetAutoDetach (handle dv)]\<rparr>)))"

definition RegisterDescriptor ::
  "Device \<Rightarrow> DescriptorType \<Rightarrow> world \<Rightarrow> (error + uint16) \<times> Device \<times> world" where
  "RegisterDescriptor d dt w =
     (case GetDescriptor dt of
        None \<Rightarrow> (Inl (ErrUnknownDescriptor dt), d, w)
      | Some desc \<Rightarrow>
          (let id = nextHIDID d;
               d1 = d\<lparr>nextHIDID := nextHIDID d + 1\<rparr>
           in case controlTransfer d1 reqRegisterHID id (of_nat (length desc)) None w of
                (Some err, w1) \<Rightarrow> (Inl (ErrRegisterHID err), d1, w1)
              | (None, w1) \<Rightarrow>
                  (case controlTransfer d1 reqSetHIDDesc id 0 (Some desc) w1 of
                     (Some err, w2) \<Rightarrow>
                       (Inl (ErrSetHIDReportDesc err), d1,
                        snd (controlTransfer d1 reqUnregisterHID id 0 None w2))
                   | (None, w2) \<Rightarrow>
                       (Inr id, d1\<lparr>registered := registered d1 @ [id], lastHIDID := id\<rparr>,
                        time_Sleep (300 * Millisecond) w2))))"

definition UnregisterDescriptor :: "Device \<Rightarrow> world \<Rightarrow> error option \<times> Device \<times> world" where
  "UnregisterDescriptor d w =
     (if length (registered d) = 0 then (None, d, w)
      else (let id = last (registered d);
                d1 = d\<lparr>registered := butlast (registered d)\<rparr>;
                (err, w1) = controlTransfer d1 reqUnregisterHID id 0 None w
            in (err, d1, time_Sleep (200 * Millisecond) w1)))"

definition SendReportTo :: "Device \<Rightarrow> uint16 \<Rightarrow> byte list \<Rightarrow> world \<Rightarrow> error option \<times> world" where
  "SendReportTo d hidID report w = controlTransfer d reqSendHIDEvent hidID 0 (Some report) w"

definition SendReport :: "Device \<Rightarrow> byte list \<Rightarrow> world \<Rightarrow> error option \<times> world" where
  "SendReport d report w = SendReportTo d (lastHIDID d) report w"

text \<open>The \<open>range\<close> loop of \<open>Close\<close> over \<open>d.registered\<close>; every error is dropped.\<close>

fun unregisterAll :: "Device \<Rightarrow> uint16 list \<Rightarrow> world \<Rightarrow> world" where
  "unregisterAll d [] w = w"
| "unregisterAll d (hid # hids) w =
     unregisterAll d hids (snd (controlTransfer d reqUnregisterHID hid 0 None w))"

definition Device_Close :: "Device \<Rightarrow> world \<Rightarrow> Device \<times> world" where
  "Device_Close d w =
     (let w1 = unregisterAll d (registered d) w
      in (d\<lparr>registered := []\<rparr>,
          w1\<lparr>events := events w1 @ [DevClose (handle (usbDevice d)), CtxClose]\<rparr>))"

section \<open>Package device\<close>

text \<open>The System Control reports.\<close>

definition powerDown :: "byte list" where
  "powerDown = [0x01]"

definition powerUp :: "byte list" where
  "powerUp = [0x00]"

definition wakeUp :: "byte list" where
  "wakeUp = [0x03]"

definition toggleThreshold :: Duration where
  "toggleThreshold = 300 * Millisecond"

definition keepAwakeInterval :: Duration where
  "keepAwakeInterval = 25 * Second"

text \<open>
  \<open>type Manager struct\<close>, without its mutex: the operations below run one at a time,
  as the lock makes them. \<open>onChange\<close> tells whether a callback is installed; its calls
  are recorded in the world.
\<close>

record Manager =
  dev :: "Device option"
  state :: State
  onChange :: bool
  serial :: string
  pttHIDID :: uint16
  touchHIDID :: uint16
  pttToggled :: bool
  pttPressTime :: Time
  swipeLeft :: bool
  keepAwake :: bool
  sleepAfterMinutes :: int
  lastActivity :: Time
  sleeping :: bool

definition notify :: "Manager \<Rightarrow> State \<Rightarrow> world \<Rightarrow> world" where
  "notify m s w = (if onChange m then w\<lparr>notified := notified w @ [s]\<rparr> else w)"

definition NewManager :: "string \<Rightarrow> bool \<Rightarrow> world \<Rightarrow> Manager" where
  "NewManager ser cb w =
     \<lparr>dev = None, state = Disconnected, onChange = cb, serial = ser,
      pttHIDID = 0, touchHIDID = 0, pttToggled = False, pttPressTime = 0,
      swipeLeft = True, keepAwake = True, sleepAfterMinutes = 60,
      lastActivity = time_Now w, sleeping = False\<rparr>"

definition SetKeepAwake :: "bool \<Rightarrow> int \<Rightarrow> Manager \<Rightarrow> world \<Rightarrow> Manager" where
  "SetKeepAwake enabled mins m w =
     m\<lparr>keepAwake := enabled, sleepAfterMinutes := mins,
       lastActivity := time_Now w, sleeping := False\<rparr>"

definition touchActivity :: "Manager \<Rightarrow> world \<Rightarrow> Manager" where
  "touchActivity m w = m\<lparr>lastActivity := time_Now w, sleeping := False\<rparr>"

text \<open>\<open>idleLimit := time.Duration(m.sleepAfterMinutes) * time.Minute\<close>, an \<open>int64\<close> product.\<close>

definition idleLimit :: "Manager \<Rightarrow> Duration" where
  "idleLimit m = wrap64 (sleepAfterMinutes m * Minute)"

definition keepAwakePing :: "Manager \<Rightarrow> world \<Rightarrow> Manager \<times> world" where
  "keepAwakePing m w =
     (case dev m of
        None \<Rightarrow> (m, w)
      | Some d \<Rightarrow>
          if state m \<noteq> Connected then (m, w)
          else if \<not> keepAwake m then (m, w)
          else if sleepAfterMinutes m > 0 \<and> time_Since (lastActivity m) w \<ge> idleLimit m
          then (if \<not> sleeping m then (m\<lparr>sleeping := True\<rparr>, w) else (m, w))
          else
            (let w1 = snd (SendReportTo d (pttHIDID m) wakeUp w);
                 w2 = time_Sleep (50 * Millisecond) w1;
                 w3 = snd (SendReportTo d (pttHIDID m) powerUp w2);
                 w4 = time_Sleep (150 * Millisecond) w3;
                 touchDown = TouchReport True 32590 32590;
                 touchUp = TouchReport False 32590 32590;
                 w5 = snd (SendReportTo d (touchHIDID m) touchDown w4);
                 w6 = time_Sleep (30 * Millisecond) w5;
                 w7 = snd (SendReportTo d (touchHIDID m) touchUp w6)
             in (m, w7)))"

text \<open>
  \<open>tryConnect\<close>; \<open>attached\<close> and \<open>enumErr\<close> are what the bus shows when \<open>aoa.Open\<close>
  enumerates it.
\<close>

definition tryConnect :: "usbdev list \<Rightarrow> bool \<Rightarrow> Manager \<Rightarrow> world \<Rightarrow> Manager \<times> world" where
  "tryConnect attached enumErr m w =
     (case Open (serial m) attached enumErr w of
        (Inl err, w1) \<Rightarrow> (m, w1)
      | (Inr d0, w1) \<Rightarrow>
          (case RegisterDescriptor d0 DescSystemControl w1 of
             (Inl err, d1, w2) \<Rightarrow> (m, snd (Device_Close d1 w2))
           | (Inr pttID, d1, w2) \<Rightarrow>
               (case RegisterDescriptor d1 DescTouchScreen w2 of
                  (Inl err, d2, w3) \<Rightarrow> (m, snd (Device_Close d2 w3))
                | (Inr touchID, d2, w3) \<Rightarrow>
                    (let m1 = m\<lparr>dev := Some d2, state := Connected, pttHIDID := pttID,
                                 touchHIDID := touchID, pttToggled := False,
                                 lastActivity := time_Now w3, sleeping := False\<rparr>;
                         w4 = notify m1 Connected w3
                     in keepAwakePing m1 w4))))"

text \<open>\<open>healthCheck\<close>; \<open>pingErr\<close> tells whether \<open>Ping\<close> (a read of the serial number) fails.\<close>

definition healthCheck :: "bool \<Rightarrow> Manager \<Rightarrow> world \<Rightarrow> Manager \<times> world" where
  "healthCheck pingErr m w =
     (case dev m of
        None \<Rightarrow> (m, w)
      | Some d \<Rightarrow>
          if pingErr
          then (let w1 = snd (Device_Close d w);
                    m1 = m\<lparr>dev := None, state := Disconnected, pttToggled := False\<rparr>
                in (m1, notify m1 Disconnected w1))
          else (m, w))"

text \<open>\<open>wake\<close> is called with \<open>m.dev != nil\<close>; \<open>d\<close> is that device.\<close>

definition wake :: "Manager \<Rightarrow> Device \<Rightarrow> world \<Rightarrow> world" where
  "wake m d w =
     (case SendReportTo d (pttHIDID m) wakeUp w of
        (Some err, w1) \<Rightarrow> w1
      | (None, w1) \<Rightarrow>
          (let w2 = time_Sleep (50 * Millisecond) w1;
               w3 = snd (SendReportTo d (pttHIDID m) powerUp w2)
           in time_Sleep (100 * Millisecond) w3))"

definition handleError :: "Manager \<Rightarrow> world \<Rightarrow> Manager \<times> world" where
  "handleError m w =
     (let (m1, w1) = (case dev m of
                        Some d \<Rightarrow> (m\<lparr>dev := None\<rparr>, snd (Device_Close d w))
                      | None \<Rightarrow> (m, w));
          m2 = m1\<lparr>state := Disconnected, pttToggled := False\<rparr>
      in (m2, notify m2 Disconnected w1))"

definition PTTDown :: "Manager \<Rightarrow> world \<Rightarrow> error option \<times> Manager \<times> world" where
  "PTTDown m w =
     (case dev m of
        None \<Rightarrow> (Some ErrNoDevice, m, w)
      | Some d \<Rightarrow>
          (let m1 = touchActivity (m\<lparr>pttPressTime := time_Now w\<rparr>) w
           in if pttToggled m1 then (None, m1, w)
              else (let w1 = wake m1 d w
                    in case SendReportTo d (pttHIDID m1) powerDown w1 of
                         (Some err, w2) \<Rightarrow>
                           (let (m2, w3) = handleError m1 w2 in (Some err, m2, w3))
                       | (None, w2) \<Rightarrow>
                           (let m2 = m1\<lparr>state := PTTActive\<rparr>
                            in (None, m2, notify m2 PTTActive w2)))))"

definition PTTUp :: "Manager \<Rightarrow> world \<Rightarrow> error option \<times> Manager \<times> world" where
  "PTTUp m w =
     (case dev m of
        None \<Rightarrow> (Some ErrNoDevice, m, w)
      | Some d \<Rightarrow>
          (let duration = time_Since (pttPressTime m) w
           in if duration < toggleThreshold
              then (if pttToggled m
                    then (let m1 = m\<lparr>pttToggled := False\<rparr>
                          in case SendReportTo d (pttHIDID m1) powerUp w of
                               (Some err, w1) \<Rightarrow>
                                 (let (m2, w2) = handleError m1 w1 in (Some err, m2, w2))
                             | (None, w1) \<Rightarrow>
                                 (let m2 = m1\<lparr>state := Connected\<rparr>
                                  in (None, m2, notify m2 Connected w1)))
                    else (None, m\<lparr>pttToggled := True\<rparr>, w))
              else (let m1 = m\<lparr>pttToggled := False\<rparr>
                    in case SendReportTo d (pttHIDID m1) powerUp w of
                         (Some err, w1) \<Rightarrow>
                           (let (m2, w2) = handleError m1 w1 in (Some err, m2, w2))
                       | (None, w1) \<Rightarrow>
                           (let m2 = m1\<lparr>state := Connected\<rparr>
                            in (None, m2, notify m2 Connected w1)))))"

definition steps :: nat where
  "steps = 8"

definition swipeY :: uint16 where
  "swipeY = 32590"

text \<open>
  Conversion of a \<open>float64\<close> to an integer type drops the fraction (towards zero).
\<close>

definition truncate_rat :: "rat \<Rightarrow> int" where
  "truncate_rat q = (if 0 \<le> q then \<lfloor>q\<rfloor> else \<lceil>q\<rceil>)"

text \<open>
  The X coordinate of step \<open>i\<close>:
  \<open>t := float64(i) / float64(steps)\<close>,
  \<open>x := uint16(float64(startX) + t*float64(int(endX)-int(startX)))\<close>.
  The \<open>float64\<close> values are modelled as rationals. For 16-bit \<open>startX\<close>, \<open>endX\<close> and
  \<open>i \<le> 8\<close> every intermediate value is a multiple of 1/8 below \<open>2 ^ 20\<close> in magnitude,
  which \<open>float64\<close> represents exactly, so no rounding takes place before the conversion.
\<close>

definition swipeX :: "uint16 \<Rightarrow> uint16 \<Rightarrow> nat \<Rightarrow> uint16" where
  "swipeX startX endX i =
     (let t = (of_nat i :: rat) / of_nat steps
      in word_of_int
           (truncate_rat (of_int (uint startX) + t * of_int (uint endX - uint startX))))"

text \<open>
  The loop \<open>for i := 0; i <= steps; i++\<close> of \<open>Swipe\<close>, from step \<open>i\<close> on. It stops at the
  first report that fails and returns the step and the error; \<open>Swipe\<close> then runs
  \<open>handleError\<close> and returns.
\<close>

function swipeSteps ::
  "Device \<Rightarrow> uint16 \<Rightarrow> uint16 \<Rightarrow> uint16 \<Rightarrow> nat \<Rightarrow> world \<Rightarrow> (nat \<times> error) option \<times> world" where
  "swipeSteps d hid startX endX i w =
     (if i \<le> steps
      then (let x = swipeX startX endX i;
                report = TouchReport True x swipeY
            in case SendReportTo d hid report w of
                 (Some err, w1) \<Rightarrow> (Some (i, err), w1)
               | (None, w1) \<Rightarrow>
                   swipeSteps d hid startX endX (i + 1)
                     (if i < steps then time_Sleep (25 * Millisecond) w1 else w1))
      else (None, w))"
  by pat_completeness auto
termination
  by (relation "measure (\<lambda>(d, hid, startX, endX, i, w). Suc steps - i)") auto

declare swipeSteps.simps [simp del]

definition Swipe :: "Manager \<Rightarrow> world \<Rightarrow> error option \<times> Manager \<times> world" where
  "Swipe m w =
     (case dev m of
        None \<Rightarrow> (Some ErrNoDevice, m, w)
      | Some d \<Rightarrow>
          (let m1 = touchActivity m w;
               w1 = wake m1 d w;
               (startX, endX) = (if swipeLeft m1 then (27000, 5000) else (5000, 27000));
               m2 = m1\<lparr>swipeLeft := \<not> swipeLeft m1\<rparr>
           in case swipeSteps d (touchHIDID m2) startX endX 0 w1 of
                (Some (i, err), w2) \<Rightarrow>
                  (let (m3, w3) = handleError m2 w2 in (Some (ErrSwipeStep i err), m3, w3))
              | (None, w2) \<Rightarrow>
                  (let liftReport = TouchReport False endX swipeY
                   in case SendReportTo d (touchHIDID m2) liftReport w2 of
                        (Some err, w3) \<Rightarrow>
                          (let (m3, w4) = handleError m2 w3 in (Some (ErrSwipeLift err), m3, w4))
                      | (None, w3) \<Rightarrow> (None, m2, w3))))"

definition Manager_Close :: "Manager \<Rightarrow> world \<Rightarrow> Manager \<times> world" where
  "Manager_Close m w =
     (let (m1, w1) =
            (case dev m of
               Some d \<Rightarrow>
                 (let w0 = (if state m = PTTActive
                            then snd (SendReportTo d (pttHIDID m) powerUp w) else w)
                  in (m\<lparr>dev := None\<rparr>, snd (Device_Close d w0)))
             | None \<Rightarrow> (m, w))
      in (m1\<lparr>state := Disconnected, pttToggled := False\<rparr>, w1))"

section \<open>Sequences of operations\<close>

text \<open>
  The operations that reach a Manager: the two branches of the poll tick of \<open>Run\<close>
  (\<open>tryConnect\<close>, \<open>healthCheck\<close>) and its keep-awake tick, the calls of the hotkey and
  HTTP handlers, and the passing of time between them.
\<close>

datatype op =
    OpTryConnect "usbdev list" bool
  | OpHealthCheck bool
  | OpKeepAwakePing
  | OpPTTDown
  | OpPTTUp
  | OpSwipe
  | OpSetKeepAwake bool int
  | OpClose
  | OpElapse nat

fun step :: "op \<Rightarrow> Manager \<times> world \<Rightarrow> Manager \<times> world" where
  "step (OpTryConnect attached enumErr) (m, w) = tryConnect attached enumErr m w"
| "step (OpHealthCheck pingErr) (m, w) = healthCheck pingErr m w"
| "step OpKeepAwakePing (m, w) = keepAwakePing m w"
| "step OpPTTDown (m, w) = snd (PTTDown m w)"
| "step OpPTTUp (m, w) = snd (PTTUp m w)"
| "step OpSwipe (m, w) = snd (Swipe m w)"
| "step (OpSetKeepAwake enabled mins) (m, w) = (SetKeepAwake enabled mins m w, w)"
| "step OpClose (m, w) = Manager_Close m w"
| "step (OpElapse ns) (m, w) = (m, time_Sleep (int ns) w)"

fun run :: "op list \<Rightarrow> Manager \<times> world \<Rightarrow> Manager \<times> world" where
  "run [] s = s"
| "run (x # xs) s = run xs (step x s)"

section \<open>Notions used to state the properties\<close>

text \<open>
  The serial number \<open>Open\<close> compares with the filter, and the attached devices that
  have the R1's vendor and product and pass the serial filter, in enumeration order.
\<close>

definition serialOf :: "usbdev \<Rightarrow> string" where
  "serialOf d = (case SerialNumber d of None \<Rightarrow> [] | Some sn \<Rightarrow> sn)"

definition candidates :: "string \<Rightarrow> usbdev list \<Rightarrow> usbdev list" where
  "candidates ser attached =
     filter (\<lambda>d. isR1 (Desc d) \<and> (ser = [] \<or> serialOf d = ser)) attached"



text \<open>
  The event that sending a report to a HID id of a session leaves, and the events of
  closing a session.
\<close>

definition sendEvent :: "Device \<Rightarrow> uint16 \<Rightarrow> byte list \<Rightarrow> usb_event" where
  "sendEvent d hid report =
     Control (handle (usbDevice d)) bmRequestTypeOut reqSendHIDEvent hid 0 report"

definition closeEvents :: "Device \<Rightarrow> usb_event list" where
  "closeEvents d =
     map (\<lambda>i. Control (handle (usbDevice d)) bmRequestTypeOut reqUnregisterHID i 0 [])
       (registered d)
     @ [DevClose (handle (usbDevice d)), CtxClose]"

text \<open>The position of the first failing transfer among the outcomes to come.\<close>

fun firstFault :: "bool list \<Rightarrow> nat option" where
  "firstFault [] = None"
| "firstFault (f # fs) = (if f then Some 0 else map_option Suc (firstFault fs))"

text \<open>
  The X coordinate of step \<open>i\<close> in the words of the specification:
  \<open>x = start + (i/8)\<cdot>(end \<minus> start)\<close>, truncated to an integer.
\<close>

definition spec_swipeX :: "int \<Rightarrow> int \<Rightarrow> nat \<Rightarrow> int" where
  "spec_swipeX startX endX i =
     truncate_rat (of_int startX + (of_nat i / 8) * of_int (endX - startX))"

text \<open>
  A session is present exactly in the states other than Disconnected, and whenever the
  toggle flag is set.
\<close>

definition sessionInv :: "Manager \<Rightarrow> bool" where
  "sessionInv m =
     ((dev m = None) = (state m = Disconnected) \<and> (pttToggled m \<longrightarrow> dev m \<noteq> None))"

text \<open>
  The number of \<open>Swipe\<close> invocations in a sequence of operations that find a session.
\<close>

fun swipesOnSession :: "op list \<Rightarrow> Manager \<times> world \<Rightarrow> nat" where
  "swipesOnSession [] s = 0"
| "swipesOnSession (x # xs) s =
     (if x = OpSwipe \<and> dev (fst s) \<noteq> None then 1 else 0) + swipesOnSession xs (step x s)"

text \<open>
  The hotkey contract: a key-up is never delivered without a preceding key-down.
  \<open>keyAfter\<close> tells whether the key is down after an operation, and \<open>paired down ops\<close>
  that every \<open>PTTUp\<close> of \<open>ops\<close> arrives while the key is down, that is after a
  \<open>PTTDown\<close> with no \<open>PTTUp\<close> since (\<open>down\<close>: the key is down at the start).
\<close>

definition keyAfter :: "bool \<Rightarrow> op \<Rightarrow> bool" where
  "keyAfter down x = (if x = OpPTTDown then True else if x = OpPTTUp then False else down)"

fun paired :: "bool \<Rightarrow> op list \<Rightarrow> bool" where
  "paired down [] = True"
| "paired down (x # xs) = ((x = OpPTTUp \<longrightarrow> down) \<and> paired (keyAfter down x) xs)"

text \<open>
  The invariant behind the toggle flag: \<open>sessionInv\<close>; the flag is set in state
  PTTActive only; the press timestamp is not in the future; and while the key is down
  in state Connected, the press is at least \<open>toggleThreshold\<close> old.
\<close>

definition pressInv :: "bool \<Rightarrow> Manager \<times> world \<Rightarrow> bool" where
  "pressInv down s =
     (sessionInv (fst s)
      \<and> (pttToggled (fst s) \<longrightarrow> state (fst s) = PTTActive)
      \<and> pttPressTime (fst s) \<le> clock (snd s)
      \<and> (down \<and> state (fst s) = Connected \<longrightarrow>
           pttPressTime (fst s) + toggleThreshold \<le> clock (snd s)))"

section \<open>Concrete inputs\<close>

text \<open>
  A quiet world at time 0 in which every transfer succeeds, two attached R1 devices,
  a keyboard that is not an R1, and a freshly created Manager.
\<close>

definition world0 :: world where
  "world0 = \<lparr>clock = 0, faults = [], events = [], notified = []\<rparr>"

definition r1a :: usbdev where
  "r1a = \<lparr>Desc = \<lparr>Vendor = 0x0e8d, Product = 0x2304\<rparr>, handle = 1,
          SerialNumber = Some ''R1A''\<rparr>"

definition r1b :: usbdev where
  "r1b = \<lparr>Desc = \<lparr>Vendor = 0x0e8d, Product = 0x2304\<rparr>, handle = 2,
          SerialNumber = Some ''R1B''\<rparr>"

definition kbd :: usbdev where
  "kbd = \<lparr>Desc = \<lparr>Vendor = 0x046d, Product = 0xc31c\<rparr>, handle = 3,
          SerialNumber = None\<rparr>"


definition manager0 :: Manager where
  "manager0 = NewManager [] True world0"

text \<open>
  The session on \<open>r1a\<close> after the two registrations of \<open>tryConnect\<close>, and the Manager
  that \<open>tryConnect\<close> leaves when it starts from \<open>manager0\<close> in \<open>world0\<close>.
\<close>

definition session12 :: Device where
  "session12 = \<lparr>usbDevice = r1a, nextHIDID = 3, registered = [1, 2], lastHIDID = 2\<rparr>"

definition connected0 :: Manager where
  "connected0 =
     \<lparr>dev = Some session12, state = Connected, onChange = True, serial = [],
      pttHIDID = 1, touchHIDID = 2, pttToggled = False, pttPressTime = 0,
      swipeLeft = True, keepAwake = True, sleepAfterMinutes = 60,
      lastActivity = 600000000, sleeping = False\<rparr>"

text \<open>
  The Manager after \<open>tryConnect\<close> and a successful \<open>PTTDown\<close>: the key went down at
  0.83 s and is held.
\<close>

definition held0 :: Manager where
  "held0 = connected0\<lparr>state := PTTActive, pttPressTime := 830000000,
                        lastActivity := 830000000\<rparr>"

text \<open>
  The state after a connect and one swipe, and the state after a connect, a swipe whose
  first touch report fails (the eleventh transfer), and a reconnect.
\<close>

definition swiped1 :: "Manager \<times> world" where
  "swiped1 = run [OpTryConnect [r1a] False, OpSwipe] (manager0, world0)"

definition faultyWorld :: world where
  "faultyWorld = world0\<lparr>faults := [False, False, False, False, False, False, False, False,
                                     False, False, True]\<rparr>"

definition reconnected1 :: "Manager \<times> world" where
  "reconnected1 =
     run [OpTryConnect [r1a] False, OpSwipe, OpTryConnect [r1a] False] (manager0, faultyWorld)"

section \<open>The protocol layer\<close>

lemma unat_low_byte: "unat (ucast (x AND 0xFF :: 16 word) :: 8 word) = unat x mod 256"
proof -
  have m: "(0xFF :: 16 word) = mask 8"
    by (simp add: mask_eq_exp_minus_1)
  show ?thesis
    unfolding m
    by (simp add: unsigned_ucast_eq take_bit_eq_mod unat_mod_distrib flip: take_bit_eq_mask)
qed

lemma unat_high_byte: "unat (ucast (drop_bit 8 (x :: 16 word)) :: 8 word) = unat x div 256"
proof -
  have "unat x < 2 ^ 16"
    using unsigned_less [of x] by simp
  then have "unat x div 256 < 256"
    by simp
  then show ?thesis
    by (simp add: unsigned_ucast_eq take_bit_eq_mod drop_bit_eq_div unat_div_distrib)
qed

text \<open>
  C8. The touch-report encoder is total and gives exactly five bytes: the flags (3 when
  touching, 0 otherwise), then the low and the high byte of x, then the low and the
  high byte of y. At (100, 200) these are 03 64 00 C8 00 when touching and
  00 64 00 C8 00 when not.
\<close>

theorem TouchReport_bytes:
  "length (TouchReport tip x y) = 5
   \<and> map unat (TouchReport tip x y) =
       [if tip then 3 else 0, unat x mod 256, unat x div 256, unat y mod 256, unat y div 256]
   \<and> TouchReport True 100 200 = [0x03, 0x64, 0x00, 0xC8, 0x00]
   \<and> TouchReport False 100 200 = [0x00, 0x64, 0x00, 0xC8, 0x00]"
  by (simp add: TouchReport_def unat_low_byte unat_high_byte)

section \<open>The accessory session\<close>

lemma controlTransfer_events:
  "events (snd (controlTransfer d r v i data w)) =
     events w @ [Control (handle (usbDevice d)) bmRequestTypeOut r v i
                   (case data of None \<Rightarrow> [] | Some bs \<Rightarrow> bs)]"
  by (simp add: controlTransfer_def Let_def)

lemma controlTransfer_result:
  "fst (controlTransfer d r v i data w) =
     (if nextFails w then Some (ErrControlTransfer r v i) else None)"
  by (simp add: controlTransfer_def Let_def)

lemma controlTransfer_faults:
  "faults (snd (controlTransfer d r v i data w)) = tl (faults w)"
  by (simp add: controlTransfer_def Let_def)

lemma SendReportTo_events:
  "events (snd (SendReportTo d hid report w)) =
     events w @ [Control (handle (usbDevice d)) bmRequestTypeOut reqSendHIDEvent hid 0 report]"
  by (simp add: SendReportTo_def controlTransfer_events)

lemma SendReportTo_result:
  "fst (SendReportTo d hid report w) =
     (if nextFails w then Some (ErrControlTransfer reqSendHIDEvent hid 0) else None)"
  by (simp add: SendReportTo_def controlTransfer_def Let_def)

lemma SendReportTo_faults:
  "faults (snd (SendReportTo d hid report w)) = tl (faults w)"
  by (simp add: SendReportTo_def controlTransfer_faults)

lemma unregisterAll_events:
  "events (unregisterAll d ids w) =
     events w
     @ map (\<lambda>i. Control (handle (usbDevice d)) bmRequestTypeOut reqUnregisterHID i 0 []) ids"
  by (induction ids arbitrary: w) (simp_all add: controlTransfer_events)

lemma Device_Close_events:
  "events (snd (Device_Close d w)) =
     events w
     @ map (\<lambda>i. Control (handle (usbDevice d)) bmRequestTypeOut reqUnregisterHID i 0 [])
         (registered d)
     @ [DevClose (handle (usbDevice d)), CtxClose]"
  by (simp add: Device_Close_def Let_def unregisterAll_events)

text \<open>
  C3, as the code has it. Whatever the transfers answer, \<open>Close\<close> issues one unregister
  request for each outstanding id in the order of registration (earliest first, not
  latest first), then releases the device handle and the context, and leaves no
  registration behind.
\<close>

theorem Device_Close_registration_order:
  "events (snd (Device_Close d w)) =
     events w
     @ map (\<lambda>i. Control (handle (usbDevice d)) bmRequestTypeOut reqUnregisterHID i 0 [])
         (registered d)
     @ [DevClose (handle (usbDevice d)), CtxClose]
   \<and> registered (fst (Device_Close d w)) = []"
  by (simp add: Device_Close_def Let_def unregisterAll_events)

text \<open>
  C3 as stated fails: closing the session that registered id 1 and then id 2 unregisters
  id 1 (the earliest) before id 2 (the most recent).
\<close>

theorem Device_Close_not_reverse:
  "registered session12 = [1, 2]
   \<and> events (snd (Device_Close session12 world0)) =
       [Control 1 0x40 55 1 0 [], Control 1 0x40 55 2 0 [], DevClose 1, CtxClose]"
  by (simp add: Device_Close_def Let_def controlTransfer_def session12_def world0_def r1a_def
        bmRequestTypeOut_def reqUnregisterHID_def)

lemma selectDevice_last:
  "fst (selectDevice ser ds cur w) =
     (if filter (\<lambda>d. ser = [] \<or> serialOf d = ser) ds = [] then cur
      else Some (last (filter (\<lambda>d. ser = [] \<or> serialOf d = ser) ds)))"
  by (induction ds arbitrary: cur w) (simp_all add: Let_def serialOf_def)

lemma candidates_filter:
  "filter (\<lambda>d. ser = [] \<or> serialOf d = ser) (filter (\<lambda>d. isR1 (Desc d)) attached) =
     candidates ser attached"
  by (simp add: candidates_def)

lemma candidates_none:
  "filter (\<lambda>d. isR1 (Desc d)) attached = [] \<Longrightarrow> candidates ser attached = []"
  by (auto simp: candidates_def filter_empty_conv)

text \<open>
  C4, as the code has it. Among the attached devices with the R1's vendor and product
  that pass the serial filter (all of them when the filter is empty, those whose serial
  equals it otherwise), \<open>Open\<close> accepts the last one in enumeration order and starts
  its session with next id 1; when there is none it fails with a not-found error.
\<close>

theorem Open_selects_last:
  "(candidates ser attached = [] \<longrightarrow>
      fst (Open ser attached enumErr w) =
        Inl (if enumErr \<and> filter (\<lambda>d. isR1 (Desc d)) attached = [] then ErrNoR1Found
             else ErrSerialNotFound ser))
   \<and> (candidates ser attached \<noteq> [] \<longrightarrow>
        fst (Open ser attached enumErr w) =
          Inr \<lparr>usbDevice = last (candidates ser attached),
               nextHIDID = 1, registered = [], lastHIDID = 0\<rparr>
        \<and> isR1 (Desc (last (candidates ser attached)))
        \<and> (ser \<noteq> [] \<longrightarrow> serialOf (last (candidates ser attached)) = ser))"
proof -
  let ?devs = "filter (\<lambda>d. isR1 (Desc d)) attached"
  obtain r w1 where sd: "selectDevice ser ?devs None w = (r, w1)"
    by (cases "selectDevice ser ?devs None w")
  have r: "r = (if candidates ser attached = [] then None
                else Some (last (candidates ser attached)))"
    using selectDevice_last [of ser ?devs None w] sd
    by (simp only: candidates_filter fst_conv)
  have mem: "candidates ser attached \<noteq> [] \<Longrightarrow>
      last (candidates ser attached) \<in> set (candidates ser attached)"
    by simp
  have props: "candidates ser attached \<noteq> [] \<Longrightarrow>
      isR1 (Desc (last (candidates ser attached)))
      \<and> (ser \<noteq> [] \<longrightarrow> serialOf (last (candidates ser attached)) = ser)"
    using mem unfolding candidates_def by auto
  show ?thesis
  proof (cases "candidates ser attached = []")
    case True
    then show ?thesis
      using sd r by (simp add: Open_def OpenDevices_def)
  next
    case False
    then have "?devs \<noteq> []"
      using candidates_none by blast
    then show ?thesis
      using sd r False props by (simp add: Open_def OpenDevices_def)
  qed
qed

theorem Open_selects_last_witness:
  "candidates [] [] = []
   \<and> fst (Open [] [] True world0) = Inl ErrNoR1Found
   \<and> candidates ''R1C'' [kbd, r1a, r1b] = []
   \<and> fst (Open ''R1C'' [kbd, r1a, r1b] False world0) = Inl (ErrSerialNotFound ''R1C'')
   \<and> candidates ''R1A'' [kbd, r1a, r1b] = [r1a]
   \<and> fst (Open ''R1A'' [kbd, r1a, r1b] False world0) =
       Inr \<lparr>usbDevice = r1a, nextHIDID = 1, registered = [], lastHIDID = 0\<rparr>
   \<and> candidates [] [kbd, r1a, r1b] = [r1a, r1b]
   \<and> fst (Open [] [kbd, r1a, r1b] False world0) =
       Inr \<lparr>usbDevice = r1b, nextHIDID = 1, registered = [], lastHIDID = 0\<rparr>"
proof -
  have c1: "candidates [] [] = []"
    by (simp add: candidates_def)
  have c2: "candidates ''R1C'' [kbd, r1a, r1b] = []"
    by (simp add: candidates_def isR1_def serialOf_def kbd_def r1a_def r1b_def
          R1VendorID_def R1ProductID_def)
  have c3: "candidates ''R1A'' [kbd, r1a, r1b] = [r1a]"
    by (simp add: candidates_def isR1_def serialOf_def kbd_def r1a_def r1b_def
          R1VendorID_def R1ProductID_def)
  have c4: "candidates [] [kbd, r1a, r1b] = [r1a, r1b]"
    by (simp add: candidates_def isR1_def serialOf_def kbd_def r1a_def r1b_def
          R1VendorID_def R1ProductID_def)
  have f: "filter (\<lambda>d. isR1 (Desc d)) [kbd, r1a, r1b] \<noteq> []"
    by (simp add: isR1_def kbd_def r1a_def r1b_def R1VendorID_def R1ProductID_def)
  show ?thesis
    using Open_selects_last [of "[]" "[]" True world0]
      Open_selects_last [of "''R1C''" "[kbd, r1a, r1b]" False world0]
      Open_selects_last [of "''R1A''" "[kbd, r1a, r1b]" False world0]
      Open_selects_last [of "[]" "[kbd, r1a, r1b]" False world0]
    by (simp add: c1 c2 c3 c4 f)
qed

text \<open>
  C4 as stated fails: with an empty serial filter and the two R1 devices \<open>r1a\<close>, \<open>r1b\<close>
  enumerated in this order, both match and \<open>Open\<close> accepts \<open>r1b\<close>, not the first.
\<close>

theorem Open_not_first:
  "candidates [] [r1a, r1b] = [r1a, r1b]
   \<and> fst (Open [] [r1a, r1b] False world0) =
       Inr \<lparr>usbDevice = r1b, nextHIDID = 1, registered = [], lastHIDID = 0\<rparr>
   \<and> r1b \<noteq> r1a"
  by (simp add: candidates_def isR1_def serialOf_def Open_def OpenDevices_def r1a_def r1b_def
        R1VendorID_def R1ProductID_def world0_def)










section \<open>The device manager\<close>

lemmas concrete_defs =
  tryConnect_def Open_def OpenDevices_def isR1_def RegisterDescriptor_def
  controlTransfer_def GetDescriptor_def DescSystemControl_def DescTouchScreen_def
  DescKeyboard_def DescConsumerControl_def DescCameraControl_def keepAwakePing_def
  SendReportTo_def time_Sleep_def time_Now_def time_Since_def time_Sub_def notify_def
  nextFails_def manager0_def NewManager_def world0_def r1a_def R1VendorID_def
  R1ProductID_def idleLimit_def wrap64_def Minute_def Second_def Millisecond_def
  maxDuration_def minDuration_def connected0_def session12_def held0_def Let_def
  PTTDown_def PTTUp_def wake_def handleError_def touchActivity_def toggleThreshold_def
  Device_Close_def powerUp_def powerDown_def wakeUp_def bmRequestTypeOut_def
  reqSendHIDEvent_def reqRegisterHID_def reqSetHIDDesc_def reqUnregisterHID_def

text \<open>The concrete Managers are the ones the operations produce.\<close>

lemma tryConnect_connected0:
  "fst (tryConnect [r1a] False manager0 world0) = connected0"
  by (simp add: concrete_defs)

lemma press_held0:
  "fst (run [OpTryConnect [r1a] False, OpPTTDown] (manager0, world0)) = held0
   \<and> clock (snd (run [OpTryConnect [r1a] False, OpPTTDown] (manager0, world0))) = 980000000"
  by (simp add: concrete_defs)

lemma handleError_manager:
  "fst (handleError m w) = m\<lparr>dev := None, state := Disconnected, pttToggled := False\<rparr>"
  by (simp add: handleError_def Let_def split: option.splits)

lemma handleError_events:
  "dev m = Some d \<Longrightarrow> events (snd (handleError m w)) = events (snd (Device_Close d w))"
  by (simp add: handleError_def Let_def notify_def)

lemma notify_events: "events (notify m s w) = events w"
  by (simp add: notify_def)

lemma short_press_iff:
  "time_Since t w < toggleThreshold \<longleftrightarrow> clock w - t < toggleThreshold"
  by (simp add: time_Since_def time_Sub_def time_Now_def Let_def toggleThreshold_def
        Millisecond_def maxDuration_def minDuration_def)

lemma PTTDown_manager:
  assumes "dev m = Some d"
  shows "fst (snd (PTTDown m w)) =
     (let m1 = m\<lparr>pttPressTime := clock w, lastActivity := clock w, sleeping := False\<rparr>
      in if pttToggled m then m1
         else if fst (PTTDown m w) = None then m1\<lparr>state := PTTActive\<rparr>
         else m1\<lparr>dev := None, state := Disconnected, pttToggled := False\<rparr>)"
proof -
  let ?m1 = "touchActivity (m\<lparr>pttPressTime := time_Now w\<rparr>) w"
  obtain r w2 where s: "SendReportTo d (pttHIDID ?m1) powerDown (wake ?m1 d w) = (r, w2)"
    by (cases "SendReportTo d (pttHIDID ?m1) powerDown (wake ?m1 d w)")
  obtain m2 w3 where h: "handleError ?m1 w2 = (m2, w3)"
    by (cases "handleError ?m1 w2")
  have m2: "m2 = ?m1\<lparr>dev := None, state := Disconnected, pttToggled := False\<rparr>"
    using handleError_manager [of ?m1 w2] h by simp
  show ?thesis
    using assms s h m2
    by (cases r) (simp_all add: PTTDown_def Let_def touchActivity_def time_Now_def)
qed

lemma Swipe_manager:
  assumes "dev m = Some d"
  shows "fst (snd (Swipe m w)) =
     (let m2 = m\<lparr>lastActivity := clock w, sleeping := False, swipeLeft := \<not> swipeLeft m\<rparr>
      in if fst (Swipe m w) = None then m2
         else m2\<lparr>dev := None, state := Disconnected, pttToggled := False\<rparr>)"
proof -
  let ?m1 = "touchActivity m w"
  let ?m2 = "?m1\<lparr>swipeLeft := \<not> swipeLeft ?m1\<rparr>"
  let ?sx = "if swipeLeft m then 27000 else 5000 :: uint16"
  let ?ex = "if swipeLeft m then 5000 else 27000 :: uint16"
  obtain r w2 where st: "swipeSteps d (touchHIDID m) ?sx ?ex 0 (wake ?m1 d w) = (r, w2)"
    by (cases "swipeSteps d (touchHIDID m) ?sx ?ex 0 (wake ?m1 d w)")
  obtain r3 w3 where l: "SendReportTo d (touchHIDID m) (TouchReport False ?ex swipeY) w2 = (r3, w3)"
    by (cases "SendReportTo d (touchHIDID m) (TouchReport False ?ex swipeY) w2")
  have h: "fst (handleError ?m2 ww) = ?m2\<lparr>dev := None, state := Disconnected, pttToggled := False\<rparr>" for ww
    by (rule handleError_manager)
  have sw: "Swipe m w =
     (case r of
        Some (i, err) \<Rightarrow> (Some (ErrSwipeStep i err), handleError ?m2 w2)
      | None \<Rightarrow> (case r3 of
                   Some err \<Rightarrow> (Some (ErrSwipeLift err), handleError ?m2 w3)
                 | None \<Rightarrow> (None, ?m2, w3)))"
    using assms st l
    by (cases "swipeLeft m")
       (simp_all add: Swipe_def Let_def touchActivity_def split: option.splits prod.splits)
  show ?thesis
    unfolding sw using h
    by (simp add: touchActivity_def time_Now_def Let_def split: option.splits prod.splits)
qed

text \<open>
  C10. Without a session (\<open>m.dev\<close> is \<open>nil\<close>) \<open>PTTDown\<close>, \<open>PTTUp\<close> and \<open>Swipe\<close> return the
  error "no device connected" and leave the Manager and the world as they were: no
  control transfer, no press timestamp, no reset of the idle timer, no flip of
  \<open>swipeLeft\<close>.
\<close>

theorem no_session_no_effect:
  assumes "dev m = None"
  shows "PTTDown m w = (Some ErrNoDevice, m, w)
       \<and> PTTUp m w = (Some ErrNoDevice, m, w)
       \<and> Swipe m w = (Some ErrNoDevice, m, w)"
  using assms by (simp add: PTTDown_def PTTUp_def Swipe_def)

theorem no_session_no_effect_witness:
  "dev manager0 = None
   \<and> PTTDown manager0 world0 = (Some ErrNoDevice, manager0, world0)
   \<and> PTTUp manager0 world0 = (Some ErrNoDevice, manager0, world0)
   \<and> Swipe manager0 world0 = (Some ErrNoDevice, manager0, world0)"
proof -
  have h: "dev manager0 = None"
    by (simp add: manager0_def NewManager_def)
  show ?thesis
    using h no_session_no_effect [OF h, of world0] by simp
qed

text \<open>
  C1, as the code has it. On a session, with the time elapsed since the press:
  a release within 300 ms while the toggle flag is clear sets the flag, sends nothing
  and leaves the state (PTTActive after a press) as it is; a release within 300 ms while
  the flag is set, and every release after 300 ms or more, clears the flag and sends the
  release report on the PTT channel. When that transfer succeeds the state becomes
  Connected and nothing else is sent; when it fails the error is returned, the session
  is closed (its ids are unregistered in registration order, then the device handle
  and the context are released) and dropped, and the state becomes Disconnected.
\<close>

theorem PTTUp_cases:
  assumes d: "dev m = Some d"
  shows "(clock w - pttPressTime m < toggleThreshold \<and> \<not> pttToggled m \<longrightarrow>
            PTTUp m w = (None, m\<lparr>pttToggled := True\<rparr>, w))
       \<and> ((toggleThreshold \<le> clock w - pttPressTime m \<or> pttToggled m) \<and> \<not> nextFails w \<longrightarrow>
            fst (PTTUp m w) = None
            \<and> fst (snd (PTTUp m w)) = m\<lparr>pttToggled := False, state := Connected\<rparr>
            \<and> events (snd (snd (PTTUp m w))) =
                events w @ [Control (handle (usbDevice d)) bmRequestTypeOut reqSendHIDEvent
                              (pttHIDID m) 0 powerUp])
       \<and> ((toggleThreshold \<le> clock w - pttPressTime m \<or> pttToggled m) \<and> nextFails w \<longrightarrow>
            fst (PTTUp m w) = Some (ErrControlTransfer reqSendHIDEvent (pttHIDID m) 0)
            \<and> fst (snd (PTTUp m w)) =
                m\<lparr>dev := None, state := Disconnected, pttToggled := False\<rparr>
            \<and> events (snd (snd (PTTUp m w))) =
                events w @ [Control (handle (usbDevice d)) bmRequestTypeOut reqSendHIDEvent
                              (pttHIDID m) 0 powerUp]
                @ closeEvents d)"
proof -
  obtain r w1 where s: "SendReportTo d (pttHIDID m) powerUp w = (r, w1)"
    by (cases "SendReportTo d (pttHIDID m) powerUp w")
  have r: "r = (if nextFails w then Some (ErrControlTransfer reqSendHIDEvent (pttHIDID m) 0)
                else None)"
    using SendReportTo_result [of d "pttHIDID m" powerUp w] s by simp
  have e: "events w1 = events w @ [Control (handle (usbDevice d)) bmRequestTypeOut
                                     reqSendHIDEvent (pttHIDID m) 0 powerUp]"
    using SendReportTo_events [of d "pttHIDID m" powerUp w] s by simp
  obtain m2 w2 where h: "handleError (m\<lparr>pttToggled := False\<rparr>) w1 = (m2, w2)"
    by (cases "handleError (m\<lparr>pttToggled := False\<rparr>) w1")
  have m2: "m2 = m\<lparr>dev := None, state := Disconnected, pttToggled := False\<rparr>"
    using handleError_manager [of "m\<lparr>pttToggled := False\<rparr>" w1] h by simp
  have e2: "events w2 = events w1 @ closeEvents d"
    using handleError_events [of "m\<lparr>pttToggled := False\<rparr>" d w1] h d
    by (simp add: Device_Close_events closeEvents_def)
  have short: "PTTUp m w = (None, m\<lparr>pttToggled := True\<rparr>, w)"
    if "clock w - pttPressTime m < toggleThreshold" "\<not> pttToggled m"
    using that d by (simp add: PTTUp_def Let_def short_press_iff)
  have rel: "PTTUp m w =
      (if nextFails w then (r, m2, w2)
       else (None, m\<lparr>pttToggled := False, state := Connected\<rparr>,
             notify (m\<lparr>pttToggled := False, state := Connected\<rparr>) Connected w1))"
    if "toggleThreshold \<le> clock w - pttPressTime m \<or> pttToggled m"
    using that d s h r by (auto simp: PTTUp_def Let_def short_press_iff)
  show ?thesis
    using short rel r m2 e e2 by (simp add: notify_events)
qed

text \<open>
  The four cases at the held key \<open>held0\<close> (pressed at 0.83 s): released at 0.98 s with
  the flag clear, released at 0.98 s with the flag set, released at 1.23 s, and released
  at 1.23 s with a failing transfer.
\<close>

theorem PTTUp_cases_witness:
  "dev held0 = Some session12
   \<and> state held0 = PTTActive
   \<and> PTTUp held0 (world0\<lparr>clock := 980000000\<rparr>) =
       (None, held0\<lparr>pttToggled := True\<rparr>, world0\<lparr>clock := 980000000\<rparr>)
   \<and> fst (snd (PTTUp (held0\<lparr>pttToggled := True\<rparr>) (world0\<lparr>clock := 980000000\<rparr>))) =
       held0\<lparr>pttToggled := False, state := Connected\<rparr>
   \<and> events (snd (snd (PTTUp (held0\<lparr>pttToggled := True\<rparr>) (world0\<lparr>clock := 980000000\<rparr>)))) =
       [Control 1 0x40 57 1 0 [0]]
   \<and> fst (PTTUp held0 (world0\<lparr>clock := 1230000000\<rparr>)) = None
   \<and> fst (snd (PTTUp held0 (world0\<lparr>clock := 1230000000\<rparr>))) =
       held0\<lparr>pttToggled := False, state := Connected\<rparr>
   \<and> fst (PTTUp held0 (world0\<lparr>clock := 1230000000, faults := [True]\<rparr>)) =
       Some (ErrControlTransfer 57 1 0)
   \<and> fst (snd (PTTUp held0 (world0\<lparr>clock := 1230000000, faults := [True]\<rparr>))) =
       held0\<lparr>dev := None, state := Disconnected, pttToggled := False\<rparr>
   \<and> events (snd (snd (PTTUp held0 (world0\<lparr>clock := 1230000000, faults := [True]\<rparr>)))) =
       [Control 1 0x40 57 1 0 [0], Control 1 0x40 55 1 0 [], Control 1 0x40 55 2 0 [],
        DevClose 1, CtxClose]"
proof -
  have d: "dev held0 = Some session12"
    by (simp add: held0_def connected0_def)
  have c: "handle (usbDevice session12) = 1" "pttHIDID held0 = 1" "\<not> pttToggled held0"
      "pttPressTime held0 = 830000000" "state held0 = PTTActive"
      "toggleThreshold = 300000000" "powerUp = [0]" "bmRequestTypeOut = 0x40"
      "reqSendHIDEvent = 57"
      "closeEvents session12 =
         [Control 1 0x40 55 1 0 [], Control 1 0x40 55 2 0 [], DevClose 1, CtxClose]"
    by (simp_all add: held0_def connected0_def session12_def r1a_def toggleThreshold_def
          Millisecond_def powerUp_def bmRequestTypeOut_def reqSendHIDEvent_def
          closeEvents_def reqUnregisterHID_def)
  have d': "dev (held0\<lparr>pttToggled := True\<rparr>) = Some session12"
    using d by simp
  show ?thesis
    using PTTUp_cases [OF d, of "world0\<lparr>clock := 980000000\<rparr>"]
      PTTUp_cases [OF d', of "world0\<lparr>clock := 980000000\<rparr>"]
      PTTUp_cases [OF d, of "world0\<lparr>clock := 1230000000\<rparr>"]
      PTTUp_cases [OF d, of "world0\<lparr>clock := 1230000000, faults := [True]\<rparr>"]
    by (simp add: d c nextFails_def world0_def)
qed

text \<open>
  C1 as stated fails: the key is pressed on a connected device, held for 0.4 s and
  released, and the transfer of the release report fails. The state is then
  Disconnected, not Connected.
\<close>

theorem PTTUp_failed_release:
  "state (fst (run [OpTryConnect [r1a] False, OpPTTDown, OpElapse 250000000, OpPTTUp]
      (manager0, world0\<lparr>faults := [False, False, False, False, False, False, False, False,
                                   False, False, False, True]\<rparr>))) = Disconnected"
  by (simp add: concrete_defs)

lemma wrap64_le: "wrap64 x \<le> maxDuration"
proof -
  have "(x + 2 ^ 63) mod 2 ^ 64 < (2 ^ 64 :: int)"
    by simp
  then show ?thesis
    by (simp add: wrap64_def maxDuration_def)
qed

lemma wrap64_id: "0 \<le> x \<Longrightarrow> x \<le> maxDuration \<Longrightarrow> wrap64 x = x"
  unfolding wrap64_def maxDuration_def by simp

text \<open>
  When the configured threshold is positive and the time since the last activity has
  reached it, the test of \<open>keepAwakePing\<close> on the saturated \<open>time.Since\<close> and the
  wrapped \<open>idleLimit\<close> succeeds.
\<close>

lemma idle_expired:
  assumes "0 < sleepAfterMinutes m"
    and "sleepAfterMinutes m * Minute \<le> clock w - lastActivity m"
  shows "idleLimit m \<le> time_Since (lastActivity m) w"
proof (cases "sleepAfterMinutes m * Minute \<le> maxDuration")
  case True
  have "0 \<le> sleepAfterMinutes m * Minute"
    using assms(1) by (simp add: Minute_def Second_def Millisecond_def)
  then have "idleLimit m = sleepAfterMinutes m * Minute"
    using True by (simp add: idleLimit_def wrap64_id)
  then show ?thesis
    using assms(2) True
    by (simp add: time_Since_def time_Sub_def time_Now_def Let_def minDuration_def
          maxDuration_def)
next
  case False
  then have "time_Since (lastActivity m) w = maxDuration"
    using assms(2) by (simp add: time_Since_def time_Sub_def time_Now_def Let_def)
  then show ?thesis
    by (simp add: idleLimit_def wrap64_le)
qed

text \<open>
  C6. A keep-awake tick leaves the world as it is (no control transfer, no delay, no
  notification) whenever the state is not Connected, or keep-awake is disabled, or a
  positive threshold is configured and the time since the last activity has reached
  it. In the first two cases the Manager is unchanged as well. In the last case, on a
  Connected Manager with keep-awake enabled (the case in which the tick gets as far as
  the idle test), the tick sets \<open>sleeping\<close> and changes nothing else, so once the flag
  is set such a tick changes nothing at all. \<open>SetKeepAwake\<close> clears the flag, and so do
  \<open>PTTDown\<close> and \<open>Swipe\<close> on a session.
\<close>

theorem keepAwakePing_noop:
  "(state m \<noteq> Connected \<or> \<not> keepAwake m
      \<or> (0 < sleepAfterMinutes m \<and> sleepAfterMinutes m * Minute \<le> clock w - lastActivity m)
      \<longrightarrow> snd (keepAwakePing m w) = w)
   \<and> (state m \<noteq> Connected \<or> \<not> keepAwake m \<longrightarrow> fst (keepAwakePing m w) = m)
   \<and> (dev m \<noteq> None \<and> state m = Connected \<and> keepAwake m
        \<and> 0 < sleepAfterMinutes m \<and> sleepAfterMinutes m * Minute \<le> clock w - lastActivity m
      \<longrightarrow> fst (keepAwakePing m w) = m\<lparr>sleeping := True\<rparr>
          \<and> (sleeping m \<longrightarrow> keepAwakePing m w = (m, w)))
   \<and> \<not> sleeping (SetKeepAwake enabled mins m w)
   \<and> (dev m \<noteq> None \<longrightarrow> \<not> sleeping (fst (snd (PTTDown m w)))
                          \<and> \<not> sleeping (fst (snd (Swipe m w))))"
proof -
  have a: "snd (keepAwakePing m w) = w"
    if "state m \<noteq> Connected \<or> \<not> keepAwake m
        \<or> (0 < sleepAfterMinutes m \<and> sleepAfterMinutes m * Minute \<le> clock w - lastActivity m)"
    using that idle_expired [of m w]
    by (auto simp: keepAwakePing_def split: option.splits)
  have b: "fst (keepAwakePing m w) = m" if "state m \<noteq> Connected \<or> \<not> keepAwake m"
    using that by (auto simp: keepAwakePing_def split: option.splits)
  have c: "fst (keepAwakePing m w) = m\<lparr>sleeping := True\<rparr>"
    if "dev m \<noteq> None" "state m = Connected" "keepAwake m" "0 < sleepAfterMinutes m"
      "sleepAfterMinutes m * Minute \<le> clock w - lastActivity m"
    using that idle_expired [of m w]
    by (auto simp: keepAwakePing_def split: option.splits)
  have d: "keepAwakePing m w = (m, w)"
    if "dev m \<noteq> None" "state m = Connected" "keepAwake m" "0 < sleepAfterMinutes m"
      "sleepAfterMinutes m * Minute \<le> clock w - lastActivity m" "sleeping m"
    using that idle_expired [of m w]
    by (auto simp: keepAwakePing_def split: option.splits)
  have e: "\<not> sleeping (SetKeepAwake enabled mins m w)"
    by (simp add: SetKeepAwake_def)
  have f: "\<not> sleeping (fst (snd (PTTDown m w)))" if nn: "dev m \<noteq> None"
  proof -
    obtain dd where "dev m = Some dd"
      using nn by blast
    then show ?thesis
      by (simp add: PTTDown_manager Let_def)
  qed
  have g: "\<not> sleeping (fst (snd (Swipe m w)))" if nn: "dev m \<noteq> None"
  proof -
    obtain dd where "dev m = Some dd"
      using nn by blast
    then show ?thesis
      by (simp add: Swipe_manager Let_def)
  qed
  show ?thesis
    using a b c d e f g by blast
qed

text \<open>
  The scenario of the specification: 60 minutes configured, the last activity 61
  minutes ago, keep-awake enabled, Connected. The first tick sets the flag, the second
  changes nothing. A tick on the Disconnected \<open>manager0\<close> does nothing either, nor
  does a tick with keep-awake disabled.
\<close>

theorem keepAwakePing_noop_witness:
  "state manager0 = Disconnected
   \<and> keepAwakePing manager0 world0 = (manager0, world0)
   \<and> state connected0 = Connected \<and> keepAwake connected0
   \<and> sleepAfterMinutes connected0 = 60
   \<and> clock (world0\<lparr>clock := 3660600000000\<rparr>) - lastActivity connected0 = 61 * Minute
   \<and> keepAwakePing connected0 (world0\<lparr>clock := 3660600000000\<rparr>) =
       (connected0\<lparr>sleeping := True\<rparr>, world0\<lparr>clock := 3660600000000\<rparr>)
   \<and> keepAwakePing (connected0\<lparr>sleeping := True\<rparr>) (world0\<lparr>clock := 3685600000000\<rparr>) =
       (connected0\<lparr>sleeping := True\<rparr>, world0\<lparr>clock := 3685600000000\<rparr>)
   \<and> keepAwake (connected0\<lparr>keepAwake := False\<rparr>) = False
   \<and> keepAwakePing (connected0\<lparr>keepAwake := False\<rparr>) world0 =
       (connected0\<lparr>keepAwake := False\<rparr>, world0)
   \<and> sleeping (SetKeepAwake True 60 (connected0\<lparr>sleeping := True\<rparr>) world0) = False
   \<and> sleeping (fst (snd (PTTDown (connected0\<lparr>sleeping := True\<rparr>) world0))) = False
   \<and> sleeping (fst (snd (Swipe (connected0\<lparr>sleeping := True\<rparr>) world0))) = False"
proof -
  have c: "state manager0 = Disconnected" "state connected0 = Connected" "keepAwake connected0"
      "sleepAfterMinutes connected0 = 60" "lastActivity connected0 = 600000000"
      "dev connected0 = Some session12" "Minute = 60000000000"
    by (simp_all add: manager0_def NewManager_def connected0_def Minute_def Second_def
          Millisecond_def)
  have p: "keepAwakePing mm ww = (fst (keepAwakePing mm ww), snd (keepAwakePing mm ww))"
    for mm ww
    by simp
  show ?thesis
    using keepAwakePing_noop [of manager0 world0 True 60]
      keepAwakePing_noop [of connected0 "world0\<lparr>clock := 3660600000000\<rparr>" True 60]
      keepAwakePing_noop [of "connected0\<lparr>sleeping := True\<rparr>"
        "world0\<lparr>clock := 3685600000000\<rparr>" True 60]
      keepAwakePing_noop [of "connected0\<lparr>sleeping := True\<rparr>" world0 True 60]
      keepAwakePing_noop [of "connected0\<lparr>keepAwake := False\<rparr>" world0 True 60]
      p [of manager0 world0] p [of connected0 "world0\<lparr>clock := 3660600000000\<rparr>"]
      p [of "connected0\<lparr>keepAwake := False\<rparr>" world0]
    by (simp add: c world0_def)
qed

lemma PTTUp_manager:
  assumes "dev m = Some d"
  shows "fst (snd (PTTUp m w)) =
     (if clock w - pttPressTime m < toggleThreshold \<and> \<not> pttToggled m
      then m\<lparr>pttToggled := True\<rparr>
      else if nextFails w then m\<lparr>dev := None, state := Disconnected, pttToggled := False\<rparr>
      else m\<lparr>pttToggled := False, state := Connected\<rparr>)"
proof -
  obtain r w1 where s: "SendReportTo d (pttHIDID m) powerUp w = (r, w1)"
    by (cases "SendReportTo d (pttHIDID m) powerUp w")
  have r: "(r = None) = (\<not> nextFails w)"
    using SendReportTo_result [of d "pttHIDID m" powerUp w] s by (simp split: if_splits)
  obtain m2 w2 where h: "handleError (m\<lparr>pttToggled := False\<rparr>) w1 = (m2, w2)"
    by (cases "handleError (m\<lparr>pttToggled := False\<rparr>) w1")
  have m2: "m2 = m\<lparr>dev := None, state := Disconnected, pttToggled := False\<rparr>"
    using handleError_manager [of "m\<lparr>pttToggled := False\<rparr>" w1] h by simp
  show ?thesis
    using assms s h r m2
    by (cases r) (simp_all add: PTTUp_def Let_def short_press_iff)
qed

lemma keepAwakePing_manager:
  "fst (keepAwakePing m w) = m \<or> fst (keepAwakePing m w) = m\<lparr>sleeping := True\<rparr>"
  by (simp add: keepAwakePing_def Let_def split: option.splits)

lemma tryConnect_manager:
  "fst (tryConnect attached enumErr m w) = m
   \<or> (dev (fst (tryConnect attached enumErr m w)) \<noteq> None
      \<and> state (fst (tryConnect attached enumErr m w)) = Connected
      \<and> \<not> pttToggled (fst (tryConnect attached enumErr m w)))"
proof -
  have k: "dev (fst (keepAwakePing m1 w1)) = dev m1 \<and> state (fst (keepAwakePing m1 w1)) = state m1
      \<and> pttToggled (fst (keepAwakePing m1 w1)) = pttToggled m1" for m1 w1
    using keepAwakePing_manager [of m1 w1] by auto
  show ?thesis
    by (simp add: tryConnect_def Let_def k split: prod.splits sum.splits)
qed

lemma healthCheck_manager:
  "fst (healthCheck pingErr m w) = m
   \<or> fst (healthCheck pingErr m w) = m\<lparr>dev := None, state := Disconnected, pttToggled := False\<rparr>"
  by (simp add: healthCheck_def Let_def split: option.splits)

lemma Manager_Close_manager:
  "fst (Manager_Close m w) = m\<lparr>dev := None, state := Disconnected, pttToggled := False\<rparr>"
  by (cases "dev m") (simp_all add: Manager_Close_def Let_def)

text \<open>The invariant \<open>sessionInv\<close>, step by step.\<close>

lemma step_sessionInv:
  assumes "sessionInv (fst s)"
  shows "sessionInv (fst (step x s))"
proof -
  obtain m w where s: "s = (m, w)"
    by (cases s)
  have i: "sessionInv m"
    using assms s by simp
  show ?thesis
  proof (cases x)
    case (OpTryConnect attached enumErr)
    then show ?thesis
      using i s tryConnect_manager [of attached enumErr m w] by (auto simp: sessionInv_def)
  next
    case (OpHealthCheck pingErr)
    then show ?thesis
      using i s healthCheck_manager [of pingErr m w] by (auto simp: sessionInv_def)
  next
    case OpKeepAwakePing
    then show ?thesis
      using i s keepAwakePing_manager [of m w] by (auto simp: sessionInv_def)
  next
    case OpPTTDown
    show ?thesis
    proof (cases "dev m")
      case None
      then show ?thesis
        using i s OpPTTDown by (simp add: PTTDown_def)
    next
      case (Some d)
      then show ?thesis
        using i s OpPTTDown PTTDown_manager [OF Some, of w]
        by (auto simp: sessionInv_def Let_def split: if_splits)
    qed
  next
    case OpPTTUp
    show ?thesis
    proof (cases "dev m")
      case None
      then show ?thesis
        using i s OpPTTUp by (simp add: PTTUp_def)
    next
      case (Some d)
      then show ?thesis
        using i s OpPTTUp PTTUp_manager [OF Some, of w]
        by (auto simp: sessionInv_def split: if_splits)
    qed
  next
    case OpSwipe
    show ?thesis
    proof (cases "dev m")
      case None
      then show ?thesis
        using i s OpSwipe by (simp add: Swipe_def)
    next
      case (Some d)
      then show ?thesis
        using i s OpSwipe Swipe_manager [OF Some, of w]
        by (auto simp: sessionInv_def Let_def split: if_splits)
    qed
  next
    case (OpSetKeepAwake enabled mins)
    then show ?thesis
      using i s by (auto simp: sessionInv_def SetKeepAwake_def)
  next
    case OpClose
    then show ?thesis
      using i s Manager_Close_manager [of m w] by (auto simp: sessionInv_def)
  next
    case (OpElapse ns)
    then show ?thesis
      using i s by simp
  qed
qed

lemma run_sessionInv: "sessionInv (fst s) \<Longrightarrow> sessionInv (fst (run ops s))"
  by (induction ops arbitrary: s) (simp_all add: step_sessionInv)

subsection \<open>The swipe gesture\<close>

lemma firstFault_append:
  "firstFault (xs @ ys) =
     (case firstFault xs of
        Some k \<Rightarrow> Some k
      | None \<Rightarrow> map_option (\<lambda>j. length xs + j) (firstFault ys))"
proof (induction xs)
  case Nil
  show ?case
    by (cases "firstFault ys") simp_all
next
  case (Cons x xs)
  then show ?case
    by (cases "firstFault ys"; cases "firstFault xs") simp_all
qed

lemma firstFault_less: "firstFault xs = Some k \<Longrightarrow> k < length xs"
  by (induction xs arbitrary: k) (auto split: if_splits)

lemma nextFails_Nil: "faults w = [] \<Longrightarrow> \<not> nextFails w"
  by (simp add: nextFails_def)

lemma nextFails_Cons: "faults w = f # fs \<Longrightarrow> nextFails w = f"
  by (simp add: nextFails_def)

lemma time_Sleep_fields:
  "events (time_Sleep t w) = events w" "faults (time_Sleep t w) = faults w"
  by (simp_all add: time_Sleep_def)

lemma swipeSteps_char:
  assumes "i + n = Suc steps"
  shows "case firstFault (take n (faults w)) of
           None \<Rightarrow>
             fst (swipeSteps d hid sx ex i w) = None
             \<and> events (snd (swipeSteps d hid sx ex i w)) =
                 events w
                 @ map (\<lambda>j. sendEvent d hid (TouchReport True (swipeX sx ex j) swipeY)) [i..<i + n]
             \<and> faults (snd (swipeSteps d hid sx ex i w)) = drop n (faults w)
         | Some k \<Rightarrow>
             fst (swipeSteps d hid sx ex i w) =
               Some (i + k, ErrControlTransfer reqSendHIDEvent hid 0)
             \<and> events (snd (swipeSteps d hid sx ex i w)) =
                 events w
                 @ map (\<lambda>j. sendEvent d hid (TouchReport True (swipeX sx ex j) swipeY))
                     [i..<Suc (i + k)]"
  using assms
proof (induction n arbitrary: i w)
  case 0
  then have "\<not> i \<le> steps"
    by simp
  then show ?case
    by (simp add: swipeSteps.simps [of d hid sx ex i w])
next
  case (Suc n)
  let ?rep = "\<lambda>j. sendEvent d hid (TouchReport True (swipeX sx ex j) swipeY)"
  have i: "i \<le> steps"
    using Suc.prems by simp
  obtain r w1 where s: "SendReportTo d hid (TouchReport True (swipeX sx ex i) swipeY) w = (r, w1)"
    by (cases "SendReportTo d hid (TouchReport True (swipeX sx ex i) swipeY) w")
  have r: "r = (if nextFails w then Some (ErrControlTransfer reqSendHIDEvent hid 0) else None)"
    using SendReportTo_result [of d hid "TouchReport True (swipeX sx ex i) swipeY" w] s by simp
  have e1: "events w1 = events w @ [?rep i]"
    using SendReportTo_events [of d hid "TouchReport True (swipeX sx ex i) swipeY" w] s
    by (simp add: sendEvent_def)
  have f1: "faults w1 = tl (faults w)"
    using SendReportTo_faults [of d hid "TouchReport True (swipeX sx ex i) swipeY" w] s by simp
  let ?w2 = "if i < steps then time_Sleep (25 * Millisecond) w1 else w1"
  have e2: "events ?w2 = events w @ [?rep i]" and f2: "faults ?w2 = tl (faults w)"
    using e1 f1 by (simp_all add: time_Sleep_fields)
  have unf: "swipeSteps d hid sx ex i w =
      (if nextFails w then (Some (i, ErrControlTransfer reqSendHIDEvent hid 0), w1)
       else swipeSteps d hid sx ex (Suc i) ?w2)"
    using i s r by (simp add: swipeSteps.simps [of d hid sx ex i w] Let_def)
  have IH: "case firstFault (take n (faults ?w2)) of
           None \<Rightarrow>
             fst (swipeSteps d hid sx ex (Suc i) ?w2) = None
             \<and> events (snd (swipeSteps d hid sx ex (Suc i) ?w2)) =
                 events ?w2 @ map ?rep [Suc i..<Suc i + n]
             \<and> faults (snd (swipeSteps d hid sx ex (Suc i) ?w2)) = drop n (faults ?w2)
         | Some k \<Rightarrow>
             fst (swipeSteps d hid sx ex (Suc i) ?w2) =
               Some (Suc i + k, ErrControlTransfer reqSendHIDEvent hid 0)
             \<and> events (snd (swipeSteps d hid sx ex (Suc i) ?w2)) =
                 events ?w2 @ map ?rep [Suc i..<Suc (Suc i + k)]"
    using Suc.IH [of "Suc i" ?w2] Suc.prems by simp
  have up: "[i..<Suc (i + k)] = i # [Suc i..<Suc (i + k)]" for k
    by (simp add: upt_rec [of i])
  show ?case
  proof (cases "faults w")
    case Nil
    then have nf: "\<not> nextFails w"
      by (rule nextFails_Nil)
    show ?thesis
      using IH Nil nf up [of n]
      by (simp only: unf e2 f2) (simp del: upt_Suc)
  next
    case (Cons f fs)
    then have nf: "nextFails w = f"
      by (rule nextFails_Cons)
    show ?thesis
    proof (cases f)
      case True
      then show ?thesis
        using Cons nf e1 by (simp add: unf)
    next
      case False
      have t: "tl (faults w) = fs"
        using Cons by simp
      show ?thesis
      proof (cases "firstFault (take n fs)")
        case None
        then show ?thesis
          using IH Cons nf False up [of n]
          by (simp only: unf e2 f2 t) (simp del: upt_Suc)
      next
        case (Some k)
        then show ?thesis
          using IH Cons nf False up [of "Suc k"]
          by (simp only: unf e2 f2 t) (simp del: upt_Suc)
      qed
    qed
  qed
qed

lemma Swipe_unfold:
  assumes "dev m = Some d"
  shows "Swipe m w =
     (let m2 = m\<lparr>lastActivity := clock w, sleeping := False, swipeLeft := \<not> swipeLeft m\<rparr>;
          sx = (if swipeLeft m then 27000 else 5000);
          ex = (if swipeLeft m then 5000 else 27000);
          w1 = wake (touchActivity m w) d w
      in case swipeSteps d (touchHIDID m) sx ex 0 w1 of
           (Some (i, err), w2) \<Rightarrow> (Some (ErrSwipeStep i err), handleError m2 w2)
         | (None, w2) \<Rightarrow>
             (case SendReportTo d (touchHIDID m) (TouchReport False ex swipeY) w2 of
                (Some err, w3) \<Rightarrow> (Some (ErrSwipeLift err), handleError m2 w3)
              | (None, w3) \<Rightarrow> (None, m2, w3)))"
  using assms
  by (cases "swipeLeft m")
     (simp_all add: Swipe_def Let_def touchActivity_def time_Now_def
        split: option.splits prod.splits)

lemma take_reports:
  "k < 9 \<Longrightarrow> take (Suc k) (map f [0..<9] @ [x]) = map f [0..<Suc k]"
  by (simp add: take_map min_def del: upt_Suc)

lemma firstFault_take_Suc:
  "firstFault (take (Suc n) fs) =
     (case firstFault (take n fs) of
        Some k \<Rightarrow> Some k
      | None \<Rightarrow> (case drop n fs of [] \<Rightarrow> None | f # _ \<Rightarrow> if f then Some n else None))"
proof -
  have t: "take (Suc n) fs = take n fs @ take 1 (drop n fs)"
    using take_add [of n 1 fs] by simp
  have l: "drop n fs \<noteq> [] \<Longrightarrow> length (take n fs) = n"
    by (simp add: min_def)
  show ?thesis
    unfolding t firstFault_append using l
    by (cases "drop n fs") (simp_all split: option.splits)
qed

lemma Swipe_char:
  assumes d: "dev m = Some d"
    and w1: "w1 = wake (touchActivity m w) d w"
    and sx: "sx = (if swipeLeft m then 27000 else 5000)"
    and ex: "ex = (if swipeLeft m then 5000 else 27000)"
    and m2: "m2 = m\<lparr>lastActivity := clock w, sleeping := False, swipeLeft := \<not> swipeLeft m\<rparr>"
    and reports: "reports = map (\<lambda>j. TouchReport True (swipeX sx ex j) swipeY) [0..<9]
                            @ [TouchReport False ex swipeY]"
  shows "case firstFault (take 10 (faults w1)) of
           None \<Rightarrow>
             fst (Swipe m w) = None \<and> fst (snd (Swipe m w)) = m2
             \<and> events (snd (snd (Swipe m w))) =
                 events w1 @ map (sendEvent d (touchHIDID m)) reports
         | Some k \<Rightarrow>
             fst (Swipe m w) =
               Some (if k < 9 then ErrSwipeStep k (ErrControlTransfer reqSendHIDEvent (touchHIDID m) 0)
                     else ErrSwipeLift (ErrControlTransfer reqSendHIDEvent (touchHIDID m) 0))
             \<and> fst (snd (Swipe m w)) = m2\<lparr>dev := None, state := Disconnected, pttToggled := False\<rparr>
             \<and> events (snd (snd (Swipe m w))) =
                 events w1 @ map (sendEvent d (touchHIDID m)) (take (Suc k) reports)
                 @ closeEvents d"
proof -
  let ?hid = "touchHIDID m"
  let ?rep = "\<lambda>j. sendEvent d ?hid (TouchReport True (swipeX sx ex j) swipeY)"
  let ?err = "ErrControlTransfer reqSendHIDEvent ?hid 0"
  obtain r w2 where st: "swipeSteps d ?hid sx ex 0 w1 = (r, w2)"
    by (cases "swipeSteps d ?hid sx ex 0 w1")
  obtain r3 w3 where l: "SendReportTo d ?hid (TouchReport False ex swipeY) w2 = (r3, w3)"
    by (cases "SendReportTo d ?hid (TouchReport False ex swipeY) w2")
  have r3: "r3 = (if nextFails w2 then Some ?err else None)"
    using SendReportTo_result [of d ?hid "TouchReport False ex swipeY" w2] l by simp
  have e3: "events w3 = events w2 @ [sendEvent d ?hid (TouchReport False ex swipeY)]"
    using SendReportTo_events [of d ?hid "TouchReport False ex swipeY" w2] l
    by (simp add: sendEvent_def)
  have d2: "dev m2 = Some d"
    using d m2 by simp
  have hm: "fst (handleError m2 ww) = m2\<lparr>dev := None, state := Disconnected, pttToggled := False\<rparr>"
    for ww
    by (rule handleError_manager)
  have he: "events (snd (handleError m2 ww)) = events ww @ closeEvents d" for ww
    using handleError_events [OF d2, of ww] by (simp add: Device_Close_events closeEvents_def)
  have sw: "Swipe m w =
     (case r of
        Some (i, err) \<Rightarrow> (Some (ErrSwipeStep i err), handleError m2 w2)
      | None \<Rightarrow> (case r3 of
                   Some err \<Rightarrow> (Some (ErrSwipeLift err), handleError m2 w3)
                 | None \<Rightarrow> (None, m2, w3)))"
    using Swipe_unfold [OF d, of w] st l
    by (cases "swipeLeft m"; cases r; cases r3) (auto simp: Let_def w1 sx ex m2)
  have ch: "case firstFault (take 9 (faults w1)) of
           None \<Rightarrow> r = None \<and> events w2 = events w1 @ map ?rep [0..<9]
                   \<and> faults w2 = drop 9 (faults w1)
         | Some k \<Rightarrow> r = Some (k, ?err) \<and> events w2 = events w1 @ map ?rep [0..<Suc k]"
    using swipeSteps_char [where i = 0 and n = 9 and w = w1 and d = d and hid = ?hid
        and sx = sx and ex = ex] st
    by (cases "firstFault (take 9 (faults w1))") (simp_all add: steps_def)
  have ff: "firstFault (take 10 (faults w1)) =
     (case firstFault (take 9 (faults w1)) of
        Some k \<Rightarrow> Some k
      | None \<Rightarrow> (case drop 9 (faults w1) of [] \<Rightarrow> None
                 | f # _ \<Rightarrow> if f then Some 9 else None))"
    using firstFault_take_Suc [of 9 "faults w1"] by simp
  show ?thesis
  proof (cases "firstFault (take 9 (faults w1))")
    case (Some k)
    then have k: "k < 9"
      using firstFault_less [of "take 9 (faults w1)" k] by simp
    have "r = Some (k, ?err)" and e2: "events w2 = events w1 @ map ?rep [0..<Suc k]"
      using ch Some by simp_all
    then have "Swipe m w = (Some (ErrSwipeStep k ?err), handleError m2 w2)"
      using sw by simp
    moreover have "take (Suc k) reports =
        map (\<lambda>j. TouchReport True (swipeX sx ex j) swipeY) [0..<Suc k]"
      unfolding reports by (rule take_reports [OF k])
    then have "map (sendEvent d ?hid) (take (Suc k) reports) = map ?rep [0..<Suc k]"
      by (simp add: comp_def del: upt_Suc)
    ultimately show ?thesis
      using Some ff k hm he e2 by simp
  next
    case None
    then have rN: "r = None" and e2: "events w2 = events w1 @ map ?rep [0..<9]"
      and f2: "faults w2 = drop 9 (faults w1)"
      using ch by simp_all
    have mr: "map (sendEvent d ?hid) reports =
        map ?rep [0..<9] @ [sendEvent d ?hid (TouchReport False ex swipeY)]"
      unfolding reports by (simp add: comp_def del: upt_Suc)
    have len: "length reports = 10"
      unfolding reports by simp
    show ?thesis
    proof (cases "nextFails w2")
      case True
      then obtain fs where "drop 9 (faults w1) = True # fs"
        using f2 by (cases "drop 9 (faults w1)") (simp_all add: nextFails_def)
      then have "firstFault (take 10 (faults w1)) = Some 9"
        by (simp only: ff None) simp
      moreover have "Swipe m w = (Some (ErrSwipeLift ?err), handleError m2 w3)"
        using sw rN r3 True by simp
      ultimately show ?thesis
        using hm he e2 e3 mr len by simp
    next
      case False
      then have "drop 9 (faults w1) = [] \<or> (\<exists>fs. drop 9 (faults w1) = False # fs)"
        using f2 by (cases "drop 9 (faults w1)") (simp_all add: nextFails_def)
      then have "firstFault (take 10 (faults w1)) = None"
        by (auto simp only: ff None) simp_all
      moreover have "Swipe m w = (None, m2, w3)"
        using sw rN r3 False by simp
      ultimately show ?thesis
        using e2 e3 mr by simp
    qed
  qed
qed

lemma swipeX_spec: "swipeX sx ex i = word_of_int (spec_swipeX (uint sx) (uint ex) i)"
  by (simp add: swipeX_def spec_swipeX_def steps_def Let_def)

lemma truncate_rat_of_int: "truncate_rat (of_int z) = z"
  by (simp add: truncate_rat_def)

lemma swipeX_start: "swipeX sx ex 0 = sx"
proof -
  have "(of_nat 0 :: rat) / of_nat steps * of_int (uint ex - uint sx) = 0"
    by simp
  then have "swipeX sx ex 0 = word_of_int (truncate_rat (of_int (uint sx)))"
    unfolding swipeX_def Let_def by (simp only: add_0_right)
  then show ?thesis
    by (simp only: truncate_rat_of_int word_of_int_uint)
qed

lemma spec_swipeX_values:
  "map (spec_swipeX 27000 5000) [0..<9] =
     [27000, 24250, 21500, 18750, 16000, 13250, 10500, 7750, 5000]"
  "map (spec_swipeX 5000 27000) [0..<9] =
     [5000, 7750, 10500, 13250, 16000, 18750, 21500, 24250, 27000]"
  by (simp_all add: upt_rec spec_swipeX_def truncate_rat_def)

text \<open>
  C7. On a session, after the wake sequence (world \<open>w1\<close>), the gesture is the ten
  reports \<open>reports\<close> on the touch channel: nine touch-down reports for the steps 0..8,
  with X the truncation of \<open>start + (i/8)\<cdot>(end \<minus> start)\<close> and Y = 32590, then one touch-up
  report at the end X; start and end are 27000 and 5000 for a left swipe, 5000 and
  27000 for a right swipe. \<open>Swipe\<close> succeeds exactly when none of the ten transfers
  fails, and then it has sent exactly these ten reports in this order. When report
  number k is the first to fail, the reports up to it are the only ones sent: \<open>Swipe\<close>
  returns an error, closes the session and the state is Disconnected.
\<close>

theorem Swipe_gesture:
  assumes d: "dev m = Some d"
    and w1: "w1 = wake (touchActivity m w) d w"
    and sx: "startX = (if swipeLeft m then 27000 else 5000)"
    and ex: "endX = (if swipeLeft m then 5000 else 27000)"
    and reports:
      "reports = map (\<lambda>i. TouchReport True (word_of_int (spec_swipeX startX endX i)) 32590) [0..<9]
                 @ [TouchReport False (word_of_int endX) 32590]"
  shows "(fst (Swipe m w) = None) = (firstFault (take 10 (faults w1)) = None)
       \<and> (fst (Swipe m w) = None \<longrightarrow>
            events (snd (snd (Swipe m w))) =
              events w1 @ map (sendEvent d (touchHIDID m)) reports)
       \<and> (\<forall>k. firstFault (take 10 (faults w1)) = Some k \<longrightarrow>
            events (snd (snd (Swipe m w))) =
              events w1 @ map (sendEvent d (touchHIDID m)) (take (Suc k) reports)
              @ closeEvents d
            \<and> state (fst (snd (Swipe m w))) = Disconnected
            \<and> dev (fst (snd (Swipe m w))) = None)
       \<and> length reports = 10
       \<and> map (spec_swipeX 27000 5000) [0..<9] =
           [27000, 24250, 21500, 18750, 16000, 13250, 10500, 7750, 5000]
       \<and> map (spec_swipeX 5000 27000) [0..<9] =
           [5000, 7750, 10500, 13250, 16000, 18750, 21500, 24250, 27000]"
proof -
  let ?sx = "if swipeLeft m then 27000 else 5000 :: uint16"
  let ?ex = "if swipeLeft m then 5000 else 27000 :: uint16"
  have u: "uint ?sx = startX" "uint ?ex = endX" "word_of_int endX = ?ex"
    using sx ex by simp_all
  have r: "reports = map (\<lambda>j. TouchReport True (swipeX ?sx ?ex j) swipeY) [0..<9]
                     @ [TouchReport False ?ex swipeY]"
    unfolding reports swipeX_spec u by (simp add: swipeY_def)
  have len: "length reports = 10"
    unfolding reports by simp
  note c = Swipe_char [OF d w1 refl refl refl r]
  show ?thesis
  proof (cases "firstFault (take 10 (faults w1))")
    case None
    then show ?thesis
      using c len spec_swipeX_values by simp
  next
    case (Some k)
    then show ?thesis
      using c len spec_swipeX_values by simp
  qed
qed

text \<open>
  A left swipe on the connected device that succeeds, and one whose third touch-down
  report fails.
\<close>

theorem Swipe_gesture_witness:
  "dev connected0 = Some session12 \<and> swipeLeft connected0
   \<and> fst (Swipe connected0 world0) = None
   \<and> events (snd (snd (Swipe connected0 world0))) =
       [Control 1 0x40 57 1 0 [3], Control 1 0x40 57 1 0 [0],
        Control 1 0x40 57 2 0 [3, 0x78, 0x69, 0x4E, 0x7F],
        Control 1 0x40 57 2 0 [3, 0xBA, 0x5E, 0x4E, 0x7F],
        Control 1 0x40 57 2 0 [3, 0xFC, 0x53, 0x4E, 0x7F],
        Control 1 0x40 57 2 0 [3, 0x3E, 0x49, 0x4E, 0x7F],
        Control 1 0x40 57 2 0 [3, 0x80, 0x3E, 0x4E, 0x7F],
        Control 1 0x40 57 2 0 [3, 0xC2, 0x33, 0x4E, 0x7F],
        Control 1 0x40 57 2 0 [3, 0x04, 0x29, 0x4E, 0x7F],
        Control 1 0x40 57 2 0 [3, 0x46, 0x1E, 0x4E, 0x7F],
        Control 1 0x40 57 2 0 [3, 0x88, 0x13, 0x4E, 0x7F],
        Control 1 0x40 57 2 0 [0, 0x88, 0x13, 0x4E, 0x7F]]
   \<and> firstFault (take 10 (faults (wake (touchActivity connected0
         (world0\<lparr>faults := [False, False, False, False, True]\<rparr>)) session12
         (world0\<lparr>faults := [False, False, False, False, True]\<rparr>)))) = Some 2
   \<and> fst (Swipe connected0 (world0\<lparr>faults := [False, False, False, False, True]\<rparr>)) =
       Some (ErrSwipeStep 2 (ErrControlTransfer 57 2 0))
   \<and> events (snd (snd (Swipe connected0 (world0\<lparr>faults := [False, False, False, False, True]\<rparr>)))) =
       [Control 1 0x40 57 1 0 [3], Control 1 0x40 57 1 0 [0],
        Control 1 0x40 57 2 0 [3, 0x78, 0x69, 0x4E, 0x7F],
        Control 1 0x40 57 2 0 [3, 0xBA, 0x5E, 0x4E, 0x7F],
        Control 1 0x40 57 2 0 [3, 0xFC, 0x53, 0x4E, 0x7F],
        Control 1 0x40 55 1 0 [], Control 1 0x40 55 2 0 [], DevClose 1, CtxClose]
   \<and> state (fst (snd (Swipe connected0 (world0\<lparr>faults := [False, False, False, False, True]\<rparr>)))) =
       Disconnected"
proof -
  have d: "dev connected0 = Some session12"
    by (simp add: connected0_def)
  have l: "swipeLeft connected0"
    by (simp add: connected0_def)
  have e: "fst (Swipe connected0 world0) = None"
    by (simp add: concrete_defs Swipe_def swipeSteps.simps steps_def)
  have f: "fst (Swipe connected0 (world0\<lparr>faults := [False, False, False, False, True]\<rparr>)) =
       Some (ErrSwipeStep 2 (ErrControlTransfer 57 2 0))"
    by (simp add: concrete_defs Swipe_def swipeSteps.simps steps_def)
  show ?thesis
    using Swipe_gesture [OF d refl refl refl refl, of world0]
      Swipe_gesture [OF d refl refl refl refl,
        of "world0\<lparr>faults := [False, False, False, False, True]\<rparr>"]
      e f
    by (simp add: d l concrete_defs sendEvent_def closeEvents_def TouchReport_def upt_rec
          spec_swipeX_def truncate_rat_def)
qed

lemma keepAwakePing_keeps:
  "swipeLeft (fst (keepAwakePing m w)) = swipeLeft m
   \<and> pttPressTime (fst (keepAwakePing m w)) = pttPressTime m"
  using keepAwakePing_manager [of m w] by auto

lemma tryConnect_keeps:
  "swipeLeft (fst (tryConnect attached enumErr m w)) = swipeLeft m
   \<and> pttPressTime (fst (tryConnect attached enumErr m w)) = pttPressTime m"
  by (simp add: tryConnect_def Let_def keepAwakePing_keeps split: prod.splits sum.splits)

text \<open>\<open>Swipe\<close> on a session is the only operation that changes \<open>swipeLeft\<close>.\<close>

lemma step_swipeLeft:
  "swipeLeft (fst (step x s)) =
     (if x = OpSwipe \<and> dev (fst s) \<noteq> None then \<not> swipeLeft (fst s) else swipeLeft (fst s))"
proof -
  obtain m w where s: "s = (m, w)"
    by (cases s)
  show ?thesis
  proof (cases x)
    case (OpTryConnect attached enumErr)
    then show ?thesis
      using s tryConnect_keeps [of attached enumErr m w] by simp
  next
    case (OpHealthCheck pingErr)
    then show ?thesis
      using s healthCheck_manager [of pingErr m w] by auto
  next
    case OpKeepAwakePing
    then show ?thesis
      using s keepAwakePing_keeps [of m w] by simp
  next
    case OpPTTDown
    show ?thesis
    proof (cases "dev m")
      case None
      then show ?thesis
        using s OpPTTDown by (simp add: PTTDown_def)
    next
      case (Some d)
      then show ?thesis
        using s OpPTTDown PTTDown_manager [OF Some, of w] by (simp add: Let_def)
    qed
  next
    case OpPTTUp
    show ?thesis
    proof (cases "dev m")
      case None
      then show ?thesis
        using s OpPTTUp by (simp add: PTTUp_def)
    next
      case (Some d)
      then show ?thesis
        using s OpPTTUp PTTUp_manager [OF Some, of w] by simp
    qed
  next
    case OpSwipe
    show ?thesis
    proof (cases "dev m")
      case None
      then show ?thesis
        using s OpSwipe by (simp add: Swipe_def)
    next
      case (Some d)
      then show ?thesis
        using s OpSwipe Swipe_manager [OF Some, of w] by (simp add: Let_def)
    qed
  next
    case (OpSetKeepAwake enabled mins)
    then show ?thesis
      using s by (simp add: SetKeepAwake_def)
  next
    case OpClose
    then show ?thesis
      using s Manager_Close_manager [of m w] by simp
  next
    case (OpElapse ns)
    then show ?thesis
      using s by simp
  qed
qed

lemma run_swipeLeft:
  "swipeLeft (fst (run ops s)) = (swipeLeft (fst s) = even (swipesOnSession ops s))"
proof (induction ops arbitrary: s)
  case Nil
  show ?case by simp
next
  case (Cons x xs)
  show ?case
    using Cons.IH [of "step x s"] step_swipeLeft [of x s] by auto
qed

lemma Swipe_one_call:
  assumes d: "dev m = Some d"
  shows "swipeLeft (fst (snd (Swipe m w))) = (\<not> swipeLeft m)
        \<and> events (snd (snd (Swipe m w))) ! length (events (wake (touchActivity m w) d w)) =
            sendEvent d (touchHIDID m)
              (TouchReport True (if swipeLeft m then 27000 else 5000) 32590)
        \<and> (fst (Swipe m w) = None \<longrightarrow>
             last (events (snd (snd (Swipe m w)))) =
               sendEvent d (touchHIDID m)
                 (TouchReport False (if swipeLeft m then 5000 else 27000) 32590))"
  proof -
    let ?sx = "if swipeLeft m then 27000 else 5000 :: uint16"
    let ?ex = "if swipeLeft m then 5000 else 27000 :: uint16"
    let ?w1 = "wake (touchActivity m w) d w"
    let ?r0 = "TouchReport True ?sx swipeY"
    let ?rest = "map (\<lambda>j. TouchReport True (swipeX ?sx ?ex j) swipeY) [Suc 0..<9]
                 @ [TouchReport False ?ex swipeY]"
    let ?reports = "map (\<lambda>j. TouchReport True (swipeX ?sx ?ex j) swipeY) [0..<9]
                    @ [TouchReport False ?ex swipeY]"
    have r: "?reports = ?r0 # ?rest"
      by (simp add: upt_rec [of 0 9] swipeX_start del: upt_Suc)
    have t: "take (Suc k) ?reports = ?r0 # take k ?rest" for k
      by (simp only: r take_Suc_Cons)
    note ch = Swipe_char [OF d refl refl refl refl refl, of w]
    have fl: "swipeLeft (fst (snd (Swipe m w))) = (\<not> swipeLeft m)"
      using Swipe_manager [OF d, of w] by (simp add: Let_def)
    show ?thesis
    proof (cases "firstFault (take 10 (faults ?w1))")
      case None
      then have e: "events (snd (snd (Swipe m w))) =
          events ?w1 @ sendEvent d (touchHIDID m) ?r0 # map (sendEvent d (touchHIDID m)) ?rest"
        using ch by (simp only: r option.case list.map)
      have first: "events (snd (snd (Swipe m w))) ! length (events ?w1) =
          sendEvent d (touchHIDID m) ?r0"
        by (simp only: e nth_append_length)
      have "last (events (snd (snd (Swipe m w)))) =
          sendEvent d (touchHIDID m) (TouchReport False ?ex swipeY)"
        by (simp add: e del: upt_Suc)
      then show ?thesis
        using fl first by (simp add: swipeY_def)
    next
      case (Some k)
      then have e: "events (snd (snd (Swipe m w))) =
          events ?w1 @ sendEvent d (touchHIDID m) ?r0
            # map (sendEvent d (touchHIDID m)) (take k ?rest) @ closeEvents d"
        using ch by (simp only: t option.case list.map) simp
      have first: "events (snd (snd (Swipe m w))) ! length (events ?w1) =
          sendEvent d (touchHIDID m) ?r0"
        by (simp only: e nth_append_length)
      obtain err where "fst (Swipe m w) = Some err"
        using ch Some by simp
      then show ?thesis
        using fl first by (simp add: swipeY_def)
    qed
  qed

text \<open>
  C2, as the code has it. A new Manager starts with the left direction. \<open>Swipe\<close> on a
  session flips \<open>swipeLeft\<close> whatever the transfers answer; \<open>Swipe\<close> without a session
  fails and leaves it; no other operation changes it. So after any sequence of
  operations on a new Manager, \<open>swipeLeft\<close> is set exactly when the number of swipes
  that found a session is even, and the next swipe on a session starts (right after the
  wake sequence) with a touch-down at X = 27000 when that number is even and at
  X = 5000 when it is odd; when it succeeds its last report is the touch-up at X = 5000,
  respectively 27000.
\<close>

theorem Swipe_flips_direction:
  fixes ops :: "op list" and ser :: string and cb :: bool and w0 w1 :: world
  defines "s \<equiv> run ops (NewManager ser cb w0, w1)"
  defines "n \<equiv> swipesOnSession ops (NewManager ser cb w0, w1)"
  shows "swipeLeft (NewManager ser cb w0)
   \<and> swipeLeft (fst s) = even n
   \<and> (x \<noteq> OpSwipe \<longrightarrow> swipeLeft (fst (step x (m, w))) = swipeLeft m)
   \<and> (dev m = None \<longrightarrow> swipeLeft (fst (snd (Swipe m w))) = swipeLeft m)
   \<and> (dev m = Some d \<longrightarrow> swipeLeft (fst (snd (Swipe m w))) = (\<not> swipeLeft m))
   \<and> (dev (fst s) = Some d \<longrightarrow>
        events (snd (snd (Swipe (fst s) (snd s))))
          ! length (events (wake (touchActivity (fst s) (snd s)) d (snd s))) =
            sendEvent d (touchHIDID (fst s))
              (TouchReport True (if even n then 27000 else 5000) 32590)
        \<and> (fst (Swipe (fst s) (snd s)) = None \<longrightarrow>
             last (events (snd (snd (Swipe (fst s) (snd s))))) =
               sendEvent d (touchHIDID (fst s))
                 (TouchReport False (if even n then 5000 else 27000) 32590)))"
proof -
  have a: "swipeLeft (NewManager ser cb w0)"
    by (simp add: NewManager_def)
  have p: "swipeLeft (fst s) = even n"
    unfolding s_def n_def using run_swipeLeft [of ops "(NewManager ser cb w0, w1)"] a by simp
  have o: "swipeLeft (fst (step x (m, w))) = swipeLeft m" if "x \<noteq> OpSwipe"
    using that step_swipeLeft [of x "(m, w)"] by simp
  have b: "swipeLeft (fst (snd (Swipe m w))) = swipeLeft m" if "dev m = None"
    using that by (simp add: Swipe_def)
  have c: "swipeLeft (fst (snd (Swipe m w))) = (\<not> swipeLeft m)" if "dev m = Some d"
    using Swipe_one_call [OF that, of w] by simp
  have e: "events (snd (snd (Swipe (fst s) (snd s))))
          ! length (events (wake (touchActivity (fst s) (snd s)) d (snd s))) =
            sendEvent d (touchHIDID (fst s))
              (TouchReport True (if even n then 27000 else 5000) 32590)
        \<and> (fst (Swipe (fst s) (snd s)) = None \<longrightarrow>
             last (events (snd (snd (Swipe (fst s) (snd s))))) =
               sendEvent d (touchHIDID (fst s))
                 (TouchReport False (if even n then 5000 else 27000) 32590))"
    if "dev (fst s) = Some d"
    using Swipe_one_call [OF that, of "snd s"] by (simp only: p) simp
  show ?thesis
    using a p o b c e by blast
qed

text \<open>
  On the connected device the first swipe goes left and the next one right. After a
  swipe that fails in its first touch report and a reconnect, the next swipe goes right
  as well. Without a session the direction stays.
\<close>

theorem Swipe_flips_direction_witness:
  "swipeLeft manager0 \<and> dev manager0 = None
   \<and> swipeLeft (fst (snd (Swipe manager0 world0)))
   \<and> swipeLeft (fst (step (OpTryConnect [r1a] False) (manager0, world0)))
   \<and> dev connected0 = Some session12 \<and> swipeLeft connected0
   \<and> swipeLeft (fst (snd (Swipe connected0 world0))) = False
   \<and> swipesOnSession [OpTryConnect [r1a] False, OpSwipe] (manager0, world0) = 1
   \<and> dev (fst swiped1) = Some session12
   \<and> swipeLeft (fst swiped1) = False
   \<and> events (snd (snd (Swipe (fst swiped1) (snd swiped1))))
        ! length (events (wake (touchActivity (fst swiped1) (snd swiped1)) session12
                           (snd swiped1))) =
       Control 1 0x40 57 2 0 [3, 0x88, 0x13, 0x4E, 0x7F]
   \<and> swipesOnSession [OpTryConnect [r1a] False, OpSwipe, OpTryConnect [r1a] False]
        (manager0, faultyWorld) = 1
   \<and> dev (fst (run [OpTryConnect [r1a] False, OpSwipe] (manager0, faultyWorld))) = None
   \<and> dev (fst reconnected1) = Some session12
   \<and> swipeLeft (fst reconnected1) = False
   \<and> events (snd (snd (Swipe (fst reconnected1) (snd reconnected1))))
        ! length (events (wake (touchActivity (fst reconnected1) (snd reconnected1)) session12
                           (snd reconnected1))) =
       Control 1 0x40 57 2 0 [3, 0x88, 0x13, 0x4E, 0x7F]"
proof -
  note ev = concrete_defs Swipe_def swipeSteps.simps steps_def swipeX_def truncate_rat_def
    swipeY_def TouchReport_def faultyWorld_def
  have d: "dev connected0 = Some session12" "swipeLeft connected0"
    by (simp_all add: connected0_def)
  have n: "dev manager0 = None" "swipeLeft manager0"
    by (simp_all add: manager0_def NewManager_def)
  have s1: "run [OpTryConnect [r1a] False, OpSwipe] (NewManager [] True world0, world0) = swiped1"
    by (simp only: swiped1_def manager0_def)
  have s2: "run [OpTryConnect [r1a] False, OpSwipe, OpTryConnect [r1a] False]
      (NewManager [] True world0, faultyWorld) = reconnected1"
    by (simp only: reconnected1_def manager0_def)
  have n1: "swipesOnSession [OpTryConnect [r1a] False, OpSwipe]
      (NewManager [] True world0, world0) = 1"
    by (simp add: ev)
  have n2: "swipesOnSession [OpTryConnect [r1a] False, OpSwipe, OpTryConnect [r1a] False]
      (NewManager [] True world0, faultyWorld) = 1"
    by (simp add: ev)
  have g: "dev (fst (run [OpTryConnect [r1a] False, OpSwipe] (manager0, faultyWorld))) = None"
    by (simp add: ev)
  have d1: "dev (fst swiped1) = Some session12" "touchHIDID (fst swiped1) = 2"
    by (simp_all add: swiped1_def ev)
  have d2: "dev (fst reconnected1) = Some session12" "touchHIDID (fst reconnected1) = 2"
    by (simp_all add: reconnected1_def ev)
  have t: "OpTryConnect [r1a] False \<noteq> OpSwipe"
    by simp
  have b: "sendEvent session12 2 (TouchReport True 5000 32590) =
      Control 1 0x40 57 2 0 [3, 0x88, 0x13, 0x4E, 0x7F]"
    by (simp add: sendEvent_def TouchReport_def session12_def r1a_def bmRequestTypeOut_def
          reqSendHIDEvent_def)
  note T1 = Swipe_flips_direction [where ops = "[OpTryConnect [r1a] False, OpSwipe]"
        and ser = "[]" and cb = True and ?w0.0 = world0 and ?w1.0 = world0
        and x = "OpTryConnect [r1a] False" and m = manager0 and w = world0 and d = session12,
        unfolded s1 n1]
  note T2 = Swipe_flips_direction [where
        ops = "[OpTryConnect [r1a] False, OpSwipe, OpTryConnect [r1a] False]"
        and ser = "[]" and cb = True and ?w0.0 = world0 and ?w1.0 = faultyWorld
        and x = "OpTryConnect [r1a] False" and m = connected0 and w = world0 and d = session12,
        unfolded s2 n2]
  have m0: "NewManager [] True world0 = manager0"
    by (simp add: manager0_def)
  show ?thesis
    using T1 T2 d n g d1 d2 t b n1 n2 by (simp add: m0)
qed

text \<open>
  C2 as stated fails: an invocation without a session fails and does not flip the
  direction. A new Manager swipes (error: no device), connects, and swipes again: this
  second invocation starts at X = 27000, the left direction.
\<close>

theorem Swipe_without_session_keeps_direction:
  "fst (Swipe manager0 world0) = Some ErrNoDevice
   \<and> swipeLeft manager0
   \<and> swipeLeft (fst (snd (Swipe manager0 world0)))
   \<and> swipeLeft (fst (run [OpSwipe, OpTryConnect [r1a] False] (manager0, world0)))
   \<and> events (snd (run [OpSwipe, OpTryConnect [r1a] False, OpSwipe] (manager0, world0))) ! 11 =
       Control 1 0x40 57 2 0 (TouchReport True 27000 32590)"
  by (simp add: concrete_defs Swipe_def swipeSteps.simps steps_def swipeX_def truncate_rat_def
        swipeY_def)

subsection \<open>The toggle flag\<close>

lemma controlTransfer_clock: "clock (snd (controlTransfer d r v i data w)) = clock w"
  by (simp add: controlTransfer_def Let_def)

lemma SendReportTo_clock: "clock (snd (SendReportTo d hid report w)) = clock w"
  by (simp add: SendReportTo_def controlTransfer_clock)

lemma unregisterAll_clock: "clock (unregisterAll d ids w) = clock w"
  by (induction ids arbitrary: w) (simp_all add: controlTransfer_clock)

lemma Device_Close_clock: "clock (snd (Device_Close d w)) = clock w"
  by (simp add: Device_Close_def Let_def unregisterAll_clock)

lemma selectDevice_clock: "clock (snd (selectDevice ser ds cur w)) = clock w"
  by (induction ds arbitrary: cur w) (simp_all add: Let_def)

lemma Open_clock: "clock (snd (Open ser attached enumErr w)) = clock w"
proof -
  obtain r w1 where sd: "selectDevice ser (filter (\<lambda>d. isR1 (Desc d)) attached) None w = (r, w1)"
    by (cases "selectDevice ser (filter (\<lambda>d. isR1 (Desc d)) attached) None w")
  have "clock w1 = clock w"
    using selectDevice_clock [of ser "filter (\<lambda>d. isR1 (Desc d)) attached" None w] sd by simp
  then show ?thesis
    using sd by (cases r) (simp_all add: Open_def OpenDevices_def)
qed

lemma RegisterDescriptor_clock:
  "clock w \<le> clock (snd (snd (RegisterDescriptor d dt w)))
   \<and> (\<forall>v. fst (RegisterDescriptor d dt w) = Inr v \<longrightarrow>
         clock (snd (snd (RegisterDescriptor d dt w))) = clock w + 300 * Millisecond)"
proof (cases "GetDescriptor dt")
  case None
  then show ?thesis
    by (simp add: RegisterDescriptor_def)
next
  case (Some desc)
  let ?d1 = "d\<lparr>nextHIDID := nextHIDID d + 1\<rparr>"
  obtain r1 w1 where a: "controlTransfer ?d1 reqRegisterHID (nextHIDID d) (of_nat (length desc)) None w = (r1, w1)"
    by (cases "controlTransfer ?d1 reqRegisterHID (nextHIDID d) (of_nat (length desc)) None w")
  obtain r2 w2 where b: "controlTransfer ?d1 reqSetHIDDesc (nextHIDID d) 0 (Some desc) w1 = (r2, w2)"
    by (cases "controlTransfer ?d1 reqSetHIDDesc (nextHIDID d) 0 (Some desc) w1")
  obtain r3 w3 where c: "controlTransfer ?d1 reqUnregisterHID (nextHIDID d) 0 None w2 = (r3, w3)"
    by (cases "controlTransfer ?d1 reqUnregisterHID (nextHIDID d) 0 None w2")
  have c1: "clock w1 = clock w"
    using controlTransfer_clock [of ?d1 reqRegisterHID "nextHIDID d" "of_nat (length desc)" None w] a
    by simp
  have c2: "clock w2 = clock w1"
    using controlTransfer_clock [of ?d1 reqSetHIDDesc "nextHIDID d" 0 "Some desc" w1] b by simp
  have c3: "clock w3 = clock w2"
    using controlTransfer_clock [of ?d1 reqUnregisterHID "nextHIDID d" 0 None w2] c by simp
  have R: "RegisterDescriptor d dt w =
      (case r1 of Some err \<Rightarrow> (Inl (ErrRegisterHID err), ?d1, w1)
       | None \<Rightarrow> (case r2 of Some err \<Rightarrow> (Inl (ErrSetHIDReportDesc err), ?d1, w3)
                  | None \<Rightarrow> (Inr (nextHIDID d),
                       ?d1\<lparr>registered := registered ?d1 @ [nextHIDID d], lastHIDID := nextHIDID d\<rparr>,
                       time_Sleep (300 * Millisecond) w2)))"
    using Some a b c by (simp add: RegisterDescriptor_def Let_def split: option.splits)
  show ?thesis
    unfolding R using c1 c2 c3
    by (simp add: time_Sleep_def Millisecond_def split: option.splits)
qed

lemma notify_clock: "clock (notify m s w) = clock w"
  by (simp add: notify_def)

lemma keepAwakePing_clock: "clock w \<le> clock (snd (keepAwakePing m w))"
  by (simp add: keepAwakePing_def Let_def SendReportTo_clock time_Sleep_def Millisecond_def
        split: option.splits)

lemma wake_clock: "clock w \<le> clock (wake m d w)"
proof -
  obtain r w1 where s: "SendReportTo d (pttHIDID m) wakeUp w = (r, w1)"
    by (cases "SendReportTo d (pttHIDID m) wakeUp w")
  have "clock w1 = clock w"
    using SendReportTo_clock [of d "pttHIDID m" wakeUp w] s by simp
  then show ?thesis
    using s
    by (cases r) (simp_all add: wake_def Let_def SendReportTo_clock time_Sleep_def Millisecond_def)
qed

lemma handleError_clock: "clock (snd (handleError m w)) = clock w"
  by (simp add: handleError_def Let_def notify_clock Device_Close_clock split: option.splits)

lemma swipeSteps_clock: "clock w \<le> clock (snd (swipeSteps d hid sx ex i w))"
proof (induction d hid sx ex i w rule: swipeSteps.induct)
  case (1 d hid sx ex i w)
  show ?case
  proof (cases "i \<le> steps")
    case False
    then show ?thesis
      by (simp add: swipeSteps.simps [of d hid sx ex i w])
  next
    case True
    obtain r w1 where s: "SendReportTo d hid (TouchReport True (swipeX sx ex i) swipeY) w = (r, w1)"
      by (cases "SendReportTo d hid (TouchReport True (swipeX sx ex i) swipeY) w")
    have c1: "clock w1 = clock w"
      using SendReportTo_clock [of d hid "TouchReport True (swipeX sx ex i) swipeY" w] s by simp
    show ?thesis
    proof (cases r)
      case (Some err)
      then show ?thesis
        using True s c1 by (simp add: swipeSteps.simps [of d hid sx ex i w] Let_def)
    next
      case None
      let ?w2 = "if i < steps then time_Sleep (25 * Millisecond) w1 else w1"
      have "clock ?w2 \<le> clock (snd (swipeSteps d hid sx ex (i + 1) ?w2))"
        using "1.IH" [OF True refl refl s [symmetric] None] by simp
      moreover have "clock w \<le> clock ?w2"
        using c1 by (simp add: time_Sleep_def Millisecond_def)
      ultimately show ?thesis
        using True s None by (simp add: swipeSteps.simps [of d hid sx ex i w] Let_def)
    qed
  qed
qed


lemma PTTDown_clock: "clock w \<le> clock (snd (snd (PTTDown m w)))"
proof (cases "dev m")
  case None
  then show ?thesis
    by (simp add: PTTDown_def)
next
  case (Some d)
  let ?m1 = "touchActivity (m\<lparr>pttPressTime := time_Now w\<rparr>) w"
  obtain r w2 where s: "SendReportTo d (pttHIDID ?m1) powerDown (wake ?m1 d w) = (r, w2)"
    by (cases "SendReportTo d (pttHIDID ?m1) powerDown (wake ?m1 d w)")
  have c2: "clock w \<le> clock w2"
    using SendReportTo_clock [of d "pttHIDID ?m1" powerDown "wake ?m1 d w"] s
      wake_clock [of w ?m1 d]
    by simp
  obtain m2 w3 where h: "handleError ?m1 w2 = (m2, w3)"
    by (cases "handleError ?m1 w2")
  have c3: "clock w3 = clock w2"
    using handleError_clock [of ?m1 w2] h by simp
  show ?thesis
    using Some s h c2 c3
    by (cases r) (simp_all add: PTTDown_def Let_def notify_clock)
qed

lemma PTTUp_clock: "clock (snd (snd (PTTUp m w))) = clock w"
proof (cases "dev m")
  case None
  then show ?thesis
    by (simp add: PTTUp_def)
next
  case (Some d)
  obtain r w1 where s: "SendReportTo d (pttHIDID m) powerUp w = (r, w1)"
    by (cases "SendReportTo d (pttHIDID m) powerUp w")
  have c1: "clock w1 = clock w"
    using SendReportTo_clock [of d "pttHIDID m" powerUp w] s by simp
  obtain m2 w2 where h: "handleError (m\<lparr>pttToggled := False\<rparr>) w1 = (m2, w2)"
    by (cases "handleError (m\<lparr>pttToggled := False\<rparr>) w1")
  have c2: "clock w2 = clock w1"
    using handleError_clock [of "m\<lparr>pttToggled := False\<rparr>" w1] h by simp
  show ?thesis
    using Some s h c1 c2
    by (cases r) (simp_all add: PTTUp_def Let_def notify_clock)
qed

lemma Swipe_clock: "clock w \<le> clock (snd (snd (Swipe m w)))"
proof (cases "dev m")
  case None
  then show ?thesis
    by (simp add: Swipe_def)
next
  case (Some d)
  let ?m2 = "m\<lparr>lastActivity := clock w, sleeping := False, swipeLeft := \<not> swipeLeft m\<rparr>"
  let ?sx = "if swipeLeft m then 27000 else 5000 :: uint16"
  let ?ex = "if swipeLeft m then 5000 else 27000 :: uint16"
  let ?w1 = "wake (touchActivity m w) d w"
  obtain r w2 where st: "swipeSteps d (touchHIDID m) ?sx ?ex 0 ?w1 = (r, w2)"
    by (cases "swipeSteps d (touchHIDID m) ?sx ?ex 0 ?w1")
  obtain r3 w3 where l: "SendReportTo d (touchHIDID m) (TouchReport False ?ex swipeY) w2 = (r3, w3)"
    by (cases "SendReportTo d (touchHIDID m) (TouchReport False ?ex swipeY) w2")
  have c2: "clock w \<le> clock w2"
    using swipeSteps_clock [of ?w1 d "touchHIDID m" ?sx ?ex 0] st wake_clock [of w "touchActivity m w" d]
    by simp
  have c3: "clock w3 = clock w2"
    using SendReportTo_clock [of d "touchHIDID m" "TouchReport False ?ex swipeY" w2] l by simp
  have sw: "Swipe m w =
     (case r of
        Some (i, err) \<Rightarrow> (Some (ErrSwipeStep i err), handleError ?m2 w2)
      | None \<Rightarrow> (case r3 of
                   Some err \<Rightarrow> (Some (ErrSwipeLift err), handleError ?m2 w3)
                 | None \<Rightarrow> (None, ?m2, w3)))"
    using Swipe_unfold [OF Some, of w] st l
    by (cases "swipeLeft m"; cases r; cases r3) (auto simp: Let_def)
  show ?thesis
    unfolding sw using c2 c3
    by (simp add: handleError_clock split: option.splits prod.splits)
qed

lemma healthCheck_clock: "clock (snd (healthCheck pingErr m w)) = clock w"
  by (simp add: healthCheck_def Let_def notify_clock Device_Close_clock split: option.splits)

lemma Manager_Close_clock: "clock (snd (Manager_Close m w)) = clock w"
  by (cases "dev m")
     (simp_all add: Manager_Close_def Let_def Device_Close_clock SendReportTo_clock)

text \<open>
  \<open>tryConnect\<close> either leaves the Manager as it is, or it ends Connected with a session,
  the toggle flag clear and the press timestamp kept, and then at least 600 ms have
  passed (the two settle delays of \<open>RegisterDescriptor\<close>).
\<close>

lemma tryConnect_effect:
  "clock w \<le> clock (snd (tryConnect attached enumErr m w))
   \<and> (fst (tryConnect attached enumErr m w) = m
      \<or> (dev (fst (tryConnect attached enumErr m w)) \<noteq> None
         \<and> state (fst (tryConnect attached enumErr m w)) = Connected
         \<and> \<not> pttToggled (fst (tryConnect attached enumErr m w))
         \<and> pttPressTime (fst (tryConnect attached enumErr m w)) = pttPressTime m
         \<and> clock w + 600 * Millisecond \<le> clock (snd (tryConnect attached enumErr m w))))"
proof -
  obtain r0 w1 where o: "Open (serial m) attached enumErr w = (r0, w1)"
    by (cases "Open (serial m) attached enumErr w")
  have c1: "clock w1 = clock w"
    using Open_clock [of "serial m" attached enumErr w] o by simp
  show ?thesis
  proof (cases r0)
    case (Inl err)
    then show ?thesis
      using o c1 by (simp add: tryConnect_def)
  next
    case (Inr d0)
    obtain r1 d1 w2 where a: "RegisterDescriptor d0 DescSystemControl w1 = (r1, d1, w2)"
      by (cases "RegisterDescriptor d0 DescSystemControl w1")
    have c2: "clock w1 \<le> clock w2" "\<And>v. r1 = Inr v \<Longrightarrow> clock w2 = clock w1 + 300 * Millisecond"
      using RegisterDescriptor_clock [of w1 d0 DescSystemControl] a by simp_all
    show ?thesis
    proof (cases r1)
      case (Inl err)
      then show ?thesis
        using o Inr a c1 c2 by (simp add: tryConnect_def Device_Close_clock)
    next
      case pid: (Inr pttID)
      obtain r2 d2 w3 where b: "RegisterDescriptor d1 DescTouchScreen w2 = (r2, d2, w3)"
        by (cases "RegisterDescriptor d1 DescTouchScreen w2")
      have c3: "clock w2 \<le> clock w3" "\<And>v. r2 = Inr v \<Longrightarrow> clock w3 = clock w2 + 300 * Millisecond"
        using RegisterDescriptor_clock [of w2 d1 DescTouchScreen] b by simp_all
      show ?thesis
      proof (cases r2)
        case (Inl err)
        then show ?thesis
          using o Inr a pid b c1 c2 c3 by (simp add: tryConnect_def Device_Close_clock)
      next
        case tid: (Inr touchID)
        let ?m1 = "m\<lparr>dev := Some d2, state := Connected, pttHIDID := pttID,
                        touchHIDID := touchID, pttToggled := False,
                        lastActivity := time_Now w3, sleeping := False\<rparr>"
        let ?w4 = "notify ?m1 Connected w3"
        have t: "tryConnect attached enumErr m w = keepAwakePing ?m1 ?w4"
          using o Inr a pid b tid by (simp add: tryConnect_def Let_def)
        have c4: "clock ?w4 = clock w + 600 * Millisecond"
          using c1 c2(2) [OF pid] c3(2) [OF tid] by (simp add: notify_clock)
        have c5: "clock ?w4 \<le> clock (snd (keepAwakePing ?m1 ?w4))"
          by (rule keepAwakePing_clock)
        have k: "fst (keepAwakePing ?m1 ?w4) = ?m1
            \<or> fst (keepAwakePing ?m1 ?w4) = ?m1\<lparr>sleeping := True\<rparr>"
          by (rule keepAwakePing_manager)
        have "clock w \<le> clock (snd (keepAwakePing ?m1 ?w4))"
          using c4 c5 by (simp add: Millisecond_def)
        moreover have "clock w + 600 * Millisecond \<le> clock (snd (keepAwakePing ?m1 ?w4))"
          using c4 c5 by simp
        moreover have "dev (fst (keepAwakePing ?m1 ?w4)) \<noteq> None
            \<and> state (fst (keepAwakePing ?m1 ?w4)) = Connected
            \<and> \<not> pttToggled (fst (keepAwakePing ?m1 ?w4))
            \<and> pttPressTime (fst (keepAwakePing ?m1 ?w4)) = pttPressTime m"
          using k by auto
        ultimately show ?thesis
          unfolding t by blast
      qed
    qed
  qed
qed

lemma step_pressInv:
  assumes inv: "pressInv down s"
    and up: "x = OpPTTUp \<longrightarrow> down"
  shows "pressInv (keyAfter down x) (step x s)"
proof -
  obtain m w where s: "s = (m, w)"
    by (cases s)
  have i: "(dev m = None) = (state m = Disconnected)" "pttToggled m \<longrightarrow> dev m \<noteq> None"
      "pttToggled m \<longrightarrow> state m = PTTActive" "pttPressTime m \<le> clock w"
      "down \<and> state m = Connected \<longrightarrow> pttPressTime m + toggleThreshold \<le> clock w"
    using inv s by (simp_all add: pressInv_def sessionInv_def)
  have thr: "toggleThreshold = 300 * Millisecond" "(0::int) \<le> Millisecond"
    by (simp_all add: toggleThreshold_def Millisecond_def)
  show ?thesis
  proof (cases x)
    case (OpTryConnect attached enumErr)
    obtain m' w' where t: "tryConnect attached enumErr m w = (m', w')"
      by (cases "tryConnect attached enumErr m w")
    have e: "clock w \<le> clock w'"
        "m' = m \<or> (dev m' \<noteq> None \<and> state m' = Connected \<and> \<not> pttToggled m'
           \<and> pttPressTime m' = pttPressTime m \<and> clock w + 600 * Millisecond \<le> clock w')"
      using tryConnect_effect [of w attached enumErr m] t by simp_all
    show ?thesis
      using e(2)
    proof
      assume "m' = m"
      then show ?thesis
        using i e(1) s t OpTryConnect
        by (auto simp: pressInv_def sessionInv_def keyAfter_def)
    next
      assume "dev m' \<noteq> None \<and> state m' = Connected \<and> \<not> pttToggled m'
           \<and> pttPressTime m' = pttPressTime m \<and> clock w + 600 * Millisecond \<le> clock w'"
      then show ?thesis
        using i(4) e(1) s t OpTryConnect thr
        by (auto simp: pressInv_def sessionInv_def keyAfter_def)
    qed
  next
    case (OpHealthCheck pingErr)
    obtain m' w' where t: "healthCheck pingErr m w = (m', w')"
      by (cases "healthCheck pingErr m w")
    have e: "clock w' = clock w"
        "m' = m \<or> m' = m\<lparr>dev := None, state := Disconnected, pttToggled := False\<rparr>"
      using healthCheck_clock [of pingErr m w] healthCheck_manager [of pingErr m w] t
      by simp_all
    show ?thesis
      using e(2) i e(1) s t OpHealthCheck
      by (auto simp: pressInv_def sessionInv_def keyAfter_def)
  next
    case OpKeepAwakePing
    obtain m' w' where t: "keepAwakePing m w = (m', w')"
      by (cases "keepAwakePing m w")
    have e: "clock w \<le> clock w'" "m' = m \<or> m' = m\<lparr>sleeping := True\<rparr>"
      using keepAwakePing_clock [of w m] keepAwakePing_manager [of m w] t by simp_all
    show ?thesis
      using e i s t OpKeepAwakePing
      by (auto simp: pressInv_def sessionInv_def keyAfter_def)
  next
    case OpPTTDown
    obtain r m' w' where t: "PTTDown m w = (r, m', w')"
      by (cases "PTTDown m w")
    have e: "clock w \<le> clock w'"
      using PTTDown_clock [of w m] t by simp
    have f: "fst (PTTDown m w) = r" "fst (snd (PTTDown m w)) = m'"
      using t by simp_all
    show ?thesis
    proof (cases "dev m")
      case None
      then have "m' = m" "w' = w"
        using t by (simp_all add: PTTDown_def)
      then show ?thesis
        using i s t OpPTTDown None
        by (simp add: pressInv_def sessionInv_def keyAfter_def)
    next
      case (Some d)
      have "m' = (let m1 = m\<lparr>pttPressTime := clock w, lastActivity := clock w, sleeping := False\<rparr>
            in if pttToggled m then m1
               else if r = None then m1\<lparr>state := PTTActive\<rparr>
               else m1\<lparr>dev := None, state := Disconnected, pttToggled := False\<rparr>)"
        using PTTDown_manager [OF Some, of w] unfolding f .
      then show ?thesis
        using i e s t OpPTTDown Some
        by (auto simp: pressInv_def sessionInv_def keyAfter_def Let_def split: if_splits)
    qed
  next
    case OpPTTUp
    then have down: down
      using up by simp
    obtain r m' w' where t: "PTTUp m w = (r, m', w')"
      by (cases "PTTUp m w")
    have e: "clock w' = clock w"
      using PTTUp_clock [of m w] t by simp
    have f: "fst (snd (PTTUp m w)) = m'"
      using t by simp
    show ?thesis
    proof (cases "dev m")
      case None
      then have "m' = m"
        using t by (simp add: PTTUp_def)
      then show ?thesis
        using i e s t OpPTTUp None
        by (simp add: pressInv_def sessionInv_def keyAfter_def)
    next
      case (Some d)
      have m': "m' = (if clock w - pttPressTime m < toggleThreshold \<and> \<not> pttToggled m
            then m\<lparr>pttToggled := True\<rparr>
            else if nextFails w then m\<lparr>dev := None, state := Disconnected, pttToggled := False\<rparr>
            else m\<lparr>pttToggled := False, state := Connected\<rparr>)"
        using PTTUp_manager [OF Some, of w] unfolding f .
      have st: "state m = PTTActive \<or> (state m = Connected \<and> pttPressTime m + toggleThreshold \<le> clock w)"
        using i(1) i(5) down Some by (cases "state m") simp_all
      show ?thesis
        using st m' i e s t OpPTTUp Some
        by (auto simp: pressInv_def sessionInv_def keyAfter_def split: if_splits)
    qed
  next
    case OpSwipe
    obtain r m' w' where t: "Swipe m w = (r, m', w')"
      by (cases "Swipe m w")
    have e: "clock w \<le> clock w'"
      using Swipe_clock [of w m] t by simp
    have f: "fst (Swipe m w) = r" "fst (snd (Swipe m w)) = m'"
      using t by simp_all
    show ?thesis
    proof (cases "dev m")
      case None
      then have "m' = m" "w' = w"
        using t by (simp_all add: Swipe_def)
      then show ?thesis
        using i s t OpSwipe None
        by (simp add: pressInv_def sessionInv_def keyAfter_def)
    next
      case (Some d)
      have "m' = (let m2 = m\<lparr>lastActivity := clock w, sleeping := False, swipeLeft := \<not> swipeLeft m\<rparr>
            in if r = None then m2
               else m2\<lparr>dev := None, state := Disconnected, pttToggled := False\<rparr>)"
        using Swipe_manager [OF Some, of w] unfolding f .
      then show ?thesis
        using i e s t OpSwipe Some
        by (auto simp: pressInv_def sessionInv_def keyAfter_def Let_def split: if_splits)
    qed
  next
    case (OpSetKeepAwake enabled mins)
    then show ?thesis
      using i s by (auto simp: pressInv_def sessionInv_def keyAfter_def SetKeepAwake_def)
  next
    case OpClose
    obtain m' w' where t: "Manager_Close m w = (m', w')"
      by (cases "Manager_Close m w")
    have e: "clock w' = clock w"
        "m' = m\<lparr>dev := None, state := Disconnected, pttToggled := False\<rparr>"
      using Manager_Close_clock [of m w] Manager_Close_manager [of m w] t by simp_all
    show ?thesis
      using e i s t OpClose
      by (auto simp: pressInv_def sessionInv_def keyAfter_def)
  next
    case (OpElapse ns)
    then show ?thesis
      using i s
      by (auto simp: pressInv_def sessionInv_def keyAfter_def time_Sleep_def)
  qed
qed

lemma run_pressInv:
  "pressInv down s \<Longrightarrow> paired down ops \<Longrightarrow>
   pttToggled (fst (run ops s)) \<longrightarrow> state (fst (run ops s)) = PTTActive"
proof (induction ops arbitrary: down s)
  case Nil
  then show ?case
    by (simp add: pressInv_def)
next
  case (Cons x xs)
  have "pressInv (keyAfter down x) (step x s)"
    using Cons.prems by (intro step_pressInv) simp_all
  then show ?case
    using Cons.IH [of "keyAfter down x" "step x s"] Cons.prems by simp
qed

text \<open>
  C9, as the code has it. From a new Manager, after any sequence of operations, a set
  toggle flag implies that a session exists and the state is not Disconnected (it is
  Connected or PTTActive). It implies state PTTActive after every sequence that keeps
  the hotkey contract (each \<open>PTTUp\<close> comes after a \<open>PTTDown\<close> with no \<open>PTTUp\<close> in
  between), started with the key up and the clock not before the zero \<open>time.Time\<close>,
  the press timestamp of a new Manager.
\<close>

theorem pttToggled_invariant:
  "(pttToggled (fst (run ops (NewManager ser cb w0, w))) \<longrightarrow>
      state (fst (run ops (NewManager ser cb w0, w))) \<noteq> Disconnected
      \<and> dev (fst (run ops (NewManager ser cb w0, w))) \<noteq> None)
   \<and> (paired False ops \<and> 0 \<le> clock w
        \<and> pttToggled (fst (run ops (NewManager ser cb w0, w))) \<longrightarrow>
      state (fst (run ops (NewManager ser cb w0, w))) = PTTActive)"
proof -
  have a: "sessionInv (fst (NewManager ser cb w0, w))"
    by (simp add: sessionInv_def NewManager_def)
  have b: "pressInv False (NewManager ser cb w0, w)" if "0 \<le> clock w"
    using that by (simp add: pressInv_def sessionInv_def NewManager_def)
  show ?thesis
    using run_sessionInv [OF a, of ops] run_pressInv [OF b, of ops]
    by (auto simp: sessionInv_def)
qed

text \<open>
  A press and a quick release on a connected device: the flag is set and the state is
  PTTActive. A press, a failed health check, a reconnect and the release: the flag is
  clear and the state is Connected.
\<close>

theorem pttToggled_invariant_witness:
  "paired False [OpTryConnect [r1a] False, OpPTTDown, OpPTTUp]
   \<and> 0 \<le> clock world0
   \<and> pttToggled (fst (run [OpTryConnect [r1a] False, OpPTTDown, OpPTTUp] (manager0, world0)))
   \<and> state (fst (run [OpTryConnect [r1a] False, OpPTTDown, OpPTTUp] (manager0, world0))) =
       PTTActive
   \<and> dev (fst (run [OpTryConnect [r1a] False, OpPTTDown, OpPTTUp] (manager0, world0))) =
       Some session12
   \<and> paired False [OpTryConnect [r1a] False, OpPTTDown, OpHealthCheck True,
        OpTryConnect [r1a] False, OpPTTUp]
   \<and> pttToggled (fst (run [OpTryConnect [r1a] False, OpPTTDown, OpHealthCheck True,
        OpTryConnect [r1a] False, OpPTTUp] (manager0, world0))) = False
   \<and> state (fst (run [OpTryConnect [r1a] False, OpPTTDown, OpHealthCheck True,
        OpTryConnect [r1a] False, OpPTTUp] (manager0, world0))) = Connected"
proof -
  have p: "paired False [OpTryConnect [r1a] False, OpPTTDown, OpPTTUp]"
      "paired False [OpTryConnect [r1a] False, OpPTTDown, OpHealthCheck True,
        OpTryConnect [r1a] False, OpPTTUp]"
    by (simp_all add: keyAfter_def)
  have c: "0 \<le> clock world0"
    by (simp add: world0_def)
  have t: "pttToggled (fst (run [OpTryConnect [r1a] False, OpPTTDown, OpPTTUp] (manager0, world0)))"
    by (simp add: concrete_defs)
  have d: "dev (fst (run [OpTryConnect [r1a] False, OpPTTDown, OpPTTUp] (manager0, world0))) =
       Some session12"
    by (simp add: concrete_defs)
  have h: "pttToggled (fst (run [OpTryConnect [r1a] False, OpPTTDown, OpHealthCheck True,
        OpTryConnect [r1a] False, OpPTTUp] (manager0, world0))) = False"
      "state (fst (run [OpTryConnect [r1a] False, OpPTTDown, OpHealthCheck True,
        OpTryConnect [r1a] False, OpPTTUp] (manager0, world0))) = Connected"
    by (simp_all add: concrete_defs healthCheck_def)
  show ?thesis
    using pttToggled_invariant [of "[OpTryConnect [r1a] False, OpPTTDown, OpPTTUp]" "[]" True
        world0 world0] p c t d h
    by (simp add: manager0_def)
qed

text \<open>
  C9 as stated fails: on a connected device, one press followed by three releases
  within 300 ms of the press. The first release sets the flag, the second clears it and
  returns to Connected, the third sets it again in state Connected.
\<close>

theorem pttToggled_while_Connected:
  "pttToggled (fst (run [OpTryConnect [r1a] False, OpPTTDown, OpPTTUp, OpPTTUp, OpPTTUp]
      (manager0, world0)))
   \<and> state (fst (run [OpTryConnect [r1a] False, OpPTTDown, OpPTTUp, OpPTTUp, OpPTTUp]
      (manager0, world0))) = Connected"
  by (simp add: concrete_defs)

end
